theory Spec2Isabelle
  imports Main
begin

section \<open>Python string operations used by \<open>image.py\<close>\<close>

text \<open>
  Python strings are modelled as \<open>string\<close>. Only the string methods that
  \<open>server/app/image.py\<close> calls are modelled, each for the way it is called there.
\<close>

text \<open>\<open>s.startswith(p)\<close>.\<close>

definition startswith :: "string \<Rightarrow> string \<Rightarrow> bool" where
  "startswith s p = (take (length p) s = p)"

text \<open>\<open>s.split(sep, 1)\<close> for a one-character separator: at most one split, at the
  first occurrence of the separator; a string without the separator is returned whole, as
  the only part.\<close>

fun split1 :: "char \<Rightarrow> string \<Rightarrow> string list" where
  "split1 sep [] = [[]]"
| "split1 sep (c # cs) =
     (if c = sep then [[], cs]
      else (case split1 sep cs of
              [] \<Rightarrow> []
            | p # ps \<Rightarrow> (c # p) # ps))"

text \<open>\<open>s.replace(old, new)\<close> for a one-character \<open>old\<close>: every occurrence is
  replaced, left to right.\<close>

fun replace :: "char \<Rightarrow> string \<Rightarrow> string \<Rightarrow> string" where
  "replace old new [] = []"
| "replace old new (c # cs) =
     (if c = old then new @ replace old new cs else c # replace old new cs)"

text \<open>\<open>s.rstrip(chars)\<close> for a one-character \<open>chars\<close>: every trailing occurrence is
  removed.\<close>

definition rstrip :: "char \<Rightarrow> string \<Rightarrow> string" where
  "rstrip ch s = rev (dropWhile (\<lambda>c. c = ch) (rev s))"

text \<open>\<open>s.strip()\<close>: leading and trailing whitespace is removed. The whitespace
  characters are those of \<open>str.isspace\<close> below code point 256.\<close>

definition isspace :: "char \<Rightarrow> bool" where
  "isspace c = (of_char c \<in> {9, 10, 11, 12, 13, 28, 29, 30, 31, 32, 133, 160 :: nat})"

definition strip :: "string \<Rightarrow> string" where
  "strip s = rev (dropWhile isspace (rev (dropWhile isspace s)))"

section \<open>Repository name encoder\<close>

text \<open>
  \<open>encode_repository_name\<close> (image.py, lines 135 to 170). The debug log line is a side
  channel and is left out.
\<close>

definition encode_repository_name :: "string \<Rightarrow> string \<Rightarrow> string" where
  "encode_repository_name full_repo_name project_name =
     (let repo_path =
            (if startswith full_repo_name (project_name @ ''/'')
             then drop (length project_name + 1) full_repo_name
             else (let parts = split1 (CHR ''/'') full_repo_name
                   in if length parts > 1 then parts ! 1 else full_repo_name))
      in replace (CHR ''/'') ''%252F'' repo_path)"

section \<open>Data model of the aggregator\<close>

text \<open>
  A Python exception is a value; the handlers of \<open>get_all_images\<close> use nothing of it
  but its text, \<open>str(e)\<close>. The values are the exceptions of class \<open>Exception\<close>,
  which both handlers catch; \<open>KeyboardInterrupt\<close> and \<open>SystemExit\<close>, which are not of
  that class and end the process rather than the request, are outside this model.
\<close>

datatype exn = Exception string

fun str :: "exn \<Rightarrow> string" where
  "str (Exception msg) = msg"

type_synonym bytes = string

text \<open>The dictionaries that the handler builds (an image record, an error entry) have
  string keys and string values, written here as the dict literals of the source.\<close>

type_synonym dict = "(string \<times> string) list"

text \<open>
  The items that the registry returns are JSON objects. The keys that the handler indexes
  without a test (\<open>project['name']\<close>, \<open>repo['name']\<close>, \<open>artifact['size']\<close>,
  \<open>artifact['digest']\<close>, \<open>tag['name']\<close>) are fields. The key \<open>tags\<close>, which the
  handler tests with \<open>'tags' in artifact and artifact['tags']\<close>, may be absent, null or a
  list. The size of an artifact is a byte count when it is fetched and a text after line
  280 has overwritten it, so the type of the field is a parameter. An item that lacks one
  of the keys indexed without a test, or holds a value of another type under it, is
  outside this model: the registry's API sends these keys with every item. The items of
  one answer are distinct objects, so overwriting the size of one changes no other.
\<close>

datatype 'a field = Absent | Null | Present 'a

record tag =
  t_name :: string

record project =
  p_name :: string

record repository =
  r_name :: string

record 's artifact =
  a_digest :: string
  a_size :: 's
  a_tags :: "tag list field"

text \<open>The configuration that the handler reads from \<open>app.config['APP_SETTINGS']\<close>.\<close>

record crictl_config =
  ignore_file_path :: string

record harbor_config =
  url :: string
  user :: string
  password :: string
  verify_ssl :: bool

record app_settings =
  crictl_config :: crictl_config
  harbor_config :: harbor_config

text \<open>The arguments of one call of \<open>get_harbor_paginated_results\<close>; \<open>c_params\<close> is
  \<open>None\<close> where the call passes no \<open>params\<close>.\<close>

record call =
  c_url :: string
  c_auth :: "string \<times> string"
  c_params :: "(string \<times> string) list option"
  c_verify_ssl :: bool

text \<open>
  What the handler calls and this file does not define. \<open>crictl_images\<close> is the outcome
  of \<open>Popen(['sudo', 'crictl', 'images'])\<close> and \<open>communicate(timeout=30)\<close>: an
  exception (the command cannot be started, the timeout expires) or the return code with
  the captured stdout and stderr. \<open>decode\<close> is \<open>bytes.decode('utf-8')\<close>.
  \<open>load_ignored_image_ids\<close> and \<open>parse_crictl_images_output\<close> come from
  \<open>image_api\<close>, \<open>naturalsize\<close> from \<open>humanize\<close>. The last three fields are
  \<open>get_harbor_paginated_results\<close> of \<open>harbor_image_api\<close>, at the three kinds of item
  it is asked for; a call reads and may change the state \<open>'w\<close> of the registry, and
  returns the items or raises. \<open>jsonify_error\<close> is what \<open>jsonify\<close> of Flask raises
  when it encodes a result whose containerd images are the given ones, \<open>None\<close> when it
  encodes them; the two other lists of a result hold dictionaries of strings under string
  keys, which it always encodes.
\<close>

record ('w, 'ids, 'img) env =
  crictl_images :: "exn + int \<times> bytes \<times> bytes"
  decode :: "bytes \<Rightarrow> exn + string"
  load_ignored_image_ids :: "string \<Rightarrow> exn + 'ids"
  parse_crictl_images_output :: "string \<Rightarrow> 'ids \<Rightarrow> exn + 'img list"
  naturalsize :: "int \<Rightarrow> string"
  harbor_projects :: "call \<Rightarrow> 'w \<Rightarrow> (exn + project list) \<times> 'w"
  harbor_repositories :: "call \<Rightarrow> 'w \<Rightarrow> (exn + repository list) \<times> 'w"
  harbor_artifacts :: "call \<Rightarrow> 'w \<Rightarrow> (exn + int artifact list) \<times> 'w"
  jsonify_error :: "'img list \<Rightarrow> exn option"

text \<open>The dictionary \<open>result\<close> of line 196, with its three keys, and the response that
  \<open>jsonify\<close> makes of it: the encoded dictionary with status 200, unless the encoder
  raises.\<close>

record 'img result =
  containerd_images :: "'img list"
  harbor_images :: "dict list"
  errors :: "dict list"

record 'img response =
  status_code :: nat
  json :: "'img result"

definition jsonify :: "('w, 'ids, 'img) env \<Rightarrow> 'img result \<Rightarrow> exn + 'img response" where
  "jsonify env result =
     (case jsonify_error env (containerd_images result) of
        Some e \<Rightarrow> Inl e
      | None \<Rightarrow> Inr \<lparr>status_code = 200, json = result\<rparr>)"

section \<open>The aggregator \<open>get_all_images\<close>\<close>

text \<open>Log lines are a side channel and are left out throughout.\<close>

subsection \<open>The containerd branch (lines 203 to 227)\<close>

text \<open>The body of the \<open>try\<close>: \<open>Inl\<close> is an exception on its way to the handler of
  line 222.\<close>

definition containerd_try ::
  "('w, 'ids, 'img) env \<Rightarrow> app_settings \<Rightarrow> 'img result \<Rightarrow> exn + 'img result" where
  "containerd_try env settings result =
     (case crictl_images env of
        Inl e \<Rightarrow> Inl e
      | Inr (returncode, stdout, stderr) \<Rightarrow>
          if returncode = 0 then
            (case decode env stdout of
               Inl e \<Rightarrow> Inl e
             | Inr output \<Rightarrow>
                 (case load_ignored_image_ids env (ignore_file_path (crictl_config settings)) of
                    Inl e \<Rightarrow> Inl e
                  | Inr ignored_ids \<Rightarrow>
                      (case parse_crictl_images_output env output ignored_ids of
                         Inl e \<Rightarrow> Inl e
                       | Inr images \<Rightarrow> Inr (result\<lparr>containerd_images := images\<rparr>))))
          else
            (case decode env stderr of
               Inl e \<Rightarrow> Inl e
             | Inr text \<Rightarrow>
                 Inr (result\<lparr>errors := errors result @
                   [[(''source'', ''containerd''),
                     (''error'', ''Failed to execute crictl command: '' @ strip text)]]\<rparr>)))"

definition containerd_branch ::
  "('w, 'ids, 'img) env \<Rightarrow> app_settings \<Rightarrow> 'img result \<Rightarrow> 'img result" where
  "containerd_branch env settings result =
     (case containerd_try env settings result of
        Inr result' \<Rightarrow> result'
      | Inl e \<Rightarrow>
          result\<lparr>errors := errors result @
            [[(''source'', ''containerd''), (''error'', str e)]]\<rparr>)"

subsection \<open>The harbor branch (lines 230 to 306)\<close>

text \<open>Lines 279 and 280: every artifact's size is overwritten by its text.\<close>

definition humanize_sizes :: "(int \<Rightarrow> string) \<Rightarrow> int artifact list \<Rightarrow> string artifact list" where
  "humanize_sizes nsize artifacts =
     map (\<lambda>a. \<lparr>a_digest = a_digest a, a_size = nsize (a_size a), a_tags = a_tags a\<rparr>) artifacts"

text \<open>Lines 284 to 291: one record is appended for each tag. The key \<open>size\<close> is present
  since line 280 has written it, so \<open>artifact.get('size', 'unknown')\<close> is its value.\<close>

fun tag_loop :: "string \<Rightarrow> string \<Rightarrow> string artifact \<Rightarrow> tag list \<Rightarrow> dict list \<Rightarrow> dict list" where
  "tag_loop full_repo_name pname artifact [] images = images"
| "tag_loop full_repo_name pname artifact (t # ts) images =
     tag_loop full_repo_name pname artifact ts
       (images @ [[(''repository'', full_repo_name),
                   (''tag'', t_name t),
                   (''digest'', a_digest artifact),
                   (''size'', a_size artifact),
                   (''project'', pname)]])"

text \<open>Lines 282 to 291.\<close>

fun artifact_loop :: "string \<Rightarrow> string \<Rightarrow> string artifact list \<Rightarrow> dict list \<Rightarrow> dict list" where
  "artifact_loop full_repo_name pname [] images = images"
| "artifact_loop full_repo_name pname (artifact # rest) images =
     artifact_loop full_repo_name pname rest
       (case a_tags artifact of
          Absent \<Rightarrow> images
        | Null \<Rightarrow> images
        | Present ts \<Rightarrow>
            if ts \<noteq> [] then tag_loop full_repo_name pname artifact ts images else images)"

definition artifacts_call :: "harbor_config \<Rightarrow> string \<Rightarrow> string \<Rightarrow> call" where
  "artifacts_call cfg pname full_repo_name =
     \<lparr>c_url = rstrip (CHR ''/'') (url cfg) @ ''/api/v2.0/projects/'' @ pname
               @ ''/repositories/'' @ encode_repository_name full_repo_name pname
               @ ''/artifacts'',
      c_auth = (user cfg, password cfg),
      c_params = None,
      c_verify_ssl = verify_ssl cfg\<rparr>"

text \<open>Lines 252 to 291: the loop over the repositories of one project. A failing
  artifact fetch is caught at line 269: its entry goes to \<open>result["errors"]\<close> and the
  loop continues. The state of the loop is the local list \<open>harbor_images\<close>, the error
  list of \<open>result\<close> and the registry.\<close>

fun repo_loop ::
  "('w, 'ids, 'img) env \<Rightarrow> harbor_config \<Rightarrow> string \<Rightarrow> repository list \<Rightarrow>
     dict list \<Rightarrow> dict list \<Rightarrow> 'w \<Rightarrow> dict list \<times> dict list \<times> 'w" where
  "repo_loop env cfg pname [] images errs w = (images, errs, w)"
| "repo_loop env cfg pname (repo # rest) images errs w =
     (let full_repo_name = r_name repo in
      case harbor_artifacts env (artifacts_call cfg pname full_repo_name) w of
        (Inl e, w') \<Rightarrow>
          repo_loop env cfg pname rest images
            (errs @ [[(''source'', ''harbor''),
                      (''repository'', full_repo_name),
                      (''error'', ''Failed to fetch artifacts: '' @ str e)]]) w'
      | (Inr artifacts, w') \<Rightarrow>
          repo_loop env cfg pname rest
            (artifact_loop full_repo_name pname
               (humanize_sizes (naturalsize env) artifacts) images)
            errs w')"

definition repositories_call :: "harbor_config \<Rightarrow> string \<Rightarrow> call" where
  "repositories_call cfg pname =
     \<lparr>c_url = rstrip (CHR ''/'') (url cfg) @ ''/api/v2.0/projects/'' @ pname
               @ ''/repositories'',
      c_auth = (user cfg, password cfg),
      c_params = None,
      c_verify_ssl = verify_ssl cfg\<rparr>"

text \<open>Lines 243 to 291: the loop over the projects. A failing repository listing is not
  caught here: the exception leaves the loop (\<open>Inl\<close>), with the error list and the
  registry as they are then; the local list \<open>harbor_images\<close> is not part of what is left.\<close>

fun project_loop ::
  "('w, 'ids, 'img) env \<Rightarrow> harbor_config \<Rightarrow> project list \<Rightarrow>
     dict list \<Rightarrow> dict list \<Rightarrow> 'w \<Rightarrow> (exn + dict list) \<times> dict list \<times> 'w" where
  "project_loop env cfg [] images errs w = (Inr images, errs, w)"
| "project_loop env cfg (p # rest) images errs w =
     (let pname = p_name p in
      case harbor_repositories env (repositories_call cfg pname) w of
        (Inl e, w') \<Rightarrow> (Inl e, errs, w')
      | (Inr repositories, w') \<Rightarrow>
          (case repo_loop env cfg pname repositories images errs w' of
             (images', errs', w'') \<Rightarrow> project_loop env cfg rest images' errs' w''))"

definition projects_call :: "harbor_config \<Rightarrow> call" where
  "projects_call cfg =
     \<lparr>c_url = rstrip (CHR ''/'') (url cfg) @ ''/api/v2.0/projects'',
      c_auth = (user cfg, password cfg),
      c_params = Some [(''with_detail'', ''false'')],
      c_verify_ssl = verify_ssl cfg\<rparr>"

text \<open>Lines 232 to 294, the body of the outer \<open>try\<close>: the project listing, then the
  loop, with \<open>harbor_images\<close> starting empty.\<close>

definition harbor_try ::
  "('w, 'ids, 'img) env \<Rightarrow> harbor_config \<Rightarrow> dict list \<Rightarrow> 'w \<Rightarrow>
     (exn + dict list) \<times> dict list \<times> 'w" where
  "harbor_try env cfg errs w =
     (case harbor_projects env (projects_call cfg) w of
        (Inl e, w') \<Rightarrow> (Inl e, errs, w')
      | (Inr projects, w') \<Rightarrow> project_loop env cfg projects [] errs w')"

text \<open>Lines 230 to 306. \<open>all([url, user, password])\<close> holds when none of the three
  strings is empty. When the body ends, line 293 stores the list in the result; when it
  raises, line 295 catches the exception and appends its entry, and line 293 is never
  reached.\<close>

definition harbor_branch ::
  "('w, 'ids, 'img) env \<Rightarrow> app_settings \<Rightarrow> 'img result \<Rightarrow> 'w \<Rightarrow> 'img result \<times> 'w" where
  "harbor_branch env settings result w =
     (let harbor_cfg = harbor_config settings in
      if url harbor_cfg \<noteq> [] \<and> user harbor_cfg \<noteq> [] \<and> password harbor_cfg \<noteq> [] then
        (case harbor_try env harbor_cfg (errors result) w of
           (Inr images, errs, w') \<Rightarrow> (result\<lparr>harbor_images := images, errors := errs\<rparr>, w')
         | (Inl e, errs, w') \<Rightarrow>
             (result\<lparr>errors := errs @ [[(''source'', ''harbor''), (''error'', str e)]]\<rparr>, w'))
      else
        (result\<lparr>errors := errors result @
           [[(''source'', ''harbor''), (''error'', ''Harbor configuration incomplete'')]]\<rparr>, w))"

text \<open>Lines 196 to 306: the dictionary \<open>result\<close> as line 308 finds it, after the two
  branches, and the registry.\<close>

definition aggregate ::
  "('w, 'ids, 'img) env \<Rightarrow> app_settings \<Rightarrow> 'w \<Rightarrow> 'img result \<times> 'w" where
  "aggregate env settings w =
     (let result = \<lparr>containerd_images = [], harbor_images = [], errors = []\<rparr>;
          result = containerd_branch env settings result
      in harbor_branch env settings result w)"

text \<open>The handler of \<open>GET /images\<close> (lines 183 to 308). Line 308 calls \<open>jsonify\<close>
  outside both \<open>try\<close> blocks: what it raises leaves the handler (\<open>Inl\<close>), and the
  caller gets no response of the handler.\<close>

definition get_all_images ::
  "('w, 'ids, 'img) env \<Rightarrow> app_settings \<Rightarrow> 'w \<Rightarrow> (exn + 'img response) \<times> 'w" where
  "get_all_images env settings w =
     (case aggregate env settings w of
        (result, w') \<Rightarrow> (jsonify env result, w'))"

section \<open>The records and errors that a walk of the registry is to give\<close>

text \<open>
  The definitions of this section are not translations of the source. They say, as list
  comprehensions, which image records and which error entries the specification expects
  from a registry whose answers are given; the theorems below compare the loops of
  \<open>get_all_images\<close> with them.
\<close>

text \<open>
  The tags of an artifact: those of the list under \<open>tags\<close>, none when the key is
  absent or null.
\<close>

definition tags_of :: "'s artifact \<Rightarrow> tag list" where
  "tags_of a = (case a_tags a of Present ts \<Rightarrow> ts | _ \<Rightarrow> [])"

text \<open>
  One record for each pair of an artifact and one of its tags, in order, with the
  text of the artifact's size.
\<close>

definition repo_records :: "(int \<Rightarrow> string) \<Rightarrow> string \<Rightarrow> string \<Rightarrow> int artifact list \<Rightarrow> dict list" where
  "repo_records nsize full_repo_name pname artifacts =
     concat (map (\<lambda>a. map (\<lambda>t. [(''repository'', full_repo_name), (''tag'', t_name t),
                                    (''digest'', a_digest a), (''size'', nsize (a_size a)),
                                    (''project'', pname)])
                          (tags_of a)) artifacts)"

text \<open>
  The records and the error entries of the repositories of one project, when
  \<open>arts_of\<close> gives the outcome of each artifact fetch.
\<close>

definition repo_images ::
  "(int \<Rightarrow> string) \<Rightarrow> harbor_config \<Rightarrow> (call \<Rightarrow> exn + int artifact list) \<Rightarrow>
     string \<Rightarrow> repository list \<Rightarrow> dict list" where
  "repo_images nsize cfg arts_of pname repos =
     concat (map (\<lambda>r. case arts_of (artifacts_call cfg pname (r_name r)) of
                         Inl e \<Rightarrow> []
                       | Inr as \<Rightarrow> repo_records nsize (r_name r) pname as) repos)"

definition repo_errors ::
  "harbor_config \<Rightarrow> (call \<Rightarrow> exn + int artifact list) \<Rightarrow>
     string \<Rightarrow> repository list \<Rightarrow> dict list" where
  "repo_errors cfg arts_of pname repos =
     concat (map (\<lambda>r. case arts_of (artifacts_call cfg pname (r_name r)) of
                         Inl e \<Rightarrow> [[(''source'', ''harbor''), (''repository'', r_name r), (''error'', ''Failed to fetch artifacts: '' @ str e)]]
                       | Inr as \<Rightarrow> []) repos)"

text \<open>
  The same over all projects, when \<open>repos_of\<close> gives the repositories that each
  listing returns.
\<close>

definition walk_images ::
  "(int \<Rightarrow> string) \<Rightarrow> harbor_config \<Rightarrow> (call \<Rightarrow> repository list) \<Rightarrow>
     (call \<Rightarrow> exn + int artifact list) \<Rightarrow> project list \<Rightarrow> dict list" where
  "walk_images nsize cfg repos_of arts_of projects =
     concat (map (\<lambda>p. repo_images nsize cfg arts_of (p_name p)
                          (repos_of (repositories_call cfg (p_name p)))) projects)"

definition walk_errors ::
  "harbor_config \<Rightarrow> (call \<Rightarrow> repository list) \<Rightarrow>
     (call \<Rightarrow> exn + int artifact list) \<Rightarrow> project list \<Rightarrow> dict list" where
  "walk_errors cfg repos_of arts_of projects =
     concat (map (\<lambda>p. repo_errors cfg arts_of (p_name p)
                          (repos_of (repositories_call cfg (p_name p)))) projects)"

text \<open>
  An error entry is scoped when it comes from harbor and names a repository; it is from
  containerd when its source says so.
\<close>

definition scoped :: "dict \<Rightarrow> bool" where
  "scoped d = (map_of d ''source'' = Some ''harbor'' \<and> map_of d ''repository'' \<noteq> None)"

definition from_containerd :: "dict \<Rightarrow> bool" where
  "from_containerd d = (map_of d ''source'' = Some ''containerd'')"

section \<open>The paginated registry client\<close>

text \<open>
  Modelled from the spec: \<open>get_harbor_paginated_results\<close> is defined in
  \<open>harbor_image_api.py\<close>, which is not among the sources; section 4.3 of the
  specification describes it. \<open>get_page\<close> is one page request: given the page number and
  the state of the registry it raises, or returns the items of the page with the total
  count when the response reports one. The client asks for the pages 1, 2, ... and
  accumulates their items until the accumulated count reaches the reported total or a page
  has fewer than \<open>page_size\<close> items, whichever comes first; a failing page request ends the
  fetch with that error and without items. A client that never meets either condition
  never returns, which is the value \<open>None\<close>.
\<close>

partial_function (option) page_loop ::
  "(nat \<Rightarrow> 'w \<Rightarrow> (exn + 'a list \<times> nat option) \<times> 'w) \<Rightarrow> nat \<Rightarrow> nat \<Rightarrow> 'a list \<Rightarrow> 'w \<Rightarrow>
     ((exn + 'a list) \<times> 'w) option" where
  "page_loop get_page page_size page results w =
     (case get_page page w of
        (Inl e, w') \<Rightarrow> Some (Inl e, w')
      | (Inr (page_items, reported), w') \<Rightarrow>
          (let results' = results @ page_items in
           if (case reported of Some n \<Rightarrow> n \<le> length results' | None \<Rightarrow> False)
              \<or> length page_items < page_size
           then Some (Inr results', w')
           else page_loop get_page page_size (page + 1) results' w'))"

definition get_harbor_paginated_results ::
  "(nat \<Rightarrow> 'w \<Rightarrow> (exn + 'a list \<times> nat option) \<times> 'w) \<Rightarrow> nat \<Rightarrow> 'w \<Rightarrow>
     ((exn + 'a list) \<times> 'w) option" where
  "get_harbor_paginated_results get_page page_size w = page_loop get_page page_size 1 [] w"

text \<open>
  Modelled from the spec: a paginated collection, as the registry serves it. Page
  \<open>page\<close> holds the items from position \<open>(page - 1) * page_size\<close> on, at most
  \<open>page_size\<close> of them; the total count is reported or not. The state of the registry is
  the list of the page numbers requested so far.
\<close>

definition paged_collection ::
  "'a list \<Rightarrow> bool \<Rightarrow> nat \<Rightarrow> nat \<Rightarrow> nat list \<Rightarrow> (exn + 'a list \<times> nat option) \<times> nat list" where
  "paged_collection all_items with_total page_size page requested =
     (Inr (take page_size (drop ((page - 1) * page_size) all_items),
           if with_total then Some (length all_items) else None),
      requested @ [page])"

text \<open>
  Modelled from the spec: the same registry with the request for page \<open>k\<close>
  failing.
\<close>

definition failing_at ::
  "nat \<Rightarrow> exn \<Rightarrow> (nat \<Rightarrow> nat list \<Rightarrow> (exn + 'a list \<times> nat option) \<times> nat list) \<Rightarrow>
     nat \<Rightarrow> nat list \<Rightarrow> (exn + 'a list \<times> nat option) \<times> nat list" where
  "failing_at k e get_page page requested =
     (if page = k then (Inl e, requested @ [page]) else get_page page requested)"

text \<open>
  Modelled from the spec: the number of page requests after which one of the two
  stopping conditions holds for a collection of \<open>n\<close> items.
\<close>

definition pages_needed :: "nat \<Rightarrow> bool \<Rightarrow> nat \<Rightarrow> nat" where
  "pages_needed n with_total page_size =
     (if with_total then max 1 ((n + page_size - 1) div page_size) else n div page_size + 1)"

section \<open>An example registry\<close>

text \<open>
  A registry at \<open>https://harbor.local/\<close> with the projects \<open>library\<close> (one
  repository) and \<open>nvcr.io\<close> (two repositories), and a \<open>crictl\<close> that exits with
  code 1. The state of the registry is the number of calls it has answered. The outcomes of
  the repository listings and of the artifact fetches are parameters.
\<close>

definition demo_settings :: app_settings where
  "demo_settings =
     \<lparr>crictl_config = \<lparr>ignore_file_path = ''images_to_ignore.txt''\<rparr>,
      harbor_config = \<lparr>url = ''https://harbor.local/'', user = ''admin'',
                       password = ''secret'', verify_ssl = True\<rparr>\<rparr>"

definition demo_projects :: "project list" where
  "demo_projects = [\<lparr>p_name = ''library''\<rparr>, \<lparr>p_name = ''nvcr.io''\<rparr>]"

definition demo_repos_of :: "call \<Rightarrow> repository list" where
  "demo_repos_of c =
     (if c_url c = ''https://harbor.local/api/v2.0/projects/library/repositories''
      then [\<lparr>r_name = ''library/nginx''\<rparr>]
      else if c_url c = ''https://harbor.local/api/v2.0/projects/nvcr.io/repositories''
      then [\<lparr>r_name = ''nvcr.io/nvidia/pytorch''\<rparr>, \<lparr>r_name = ''nvcr.io/nvidia/cuda''\<rparr>]
      else [])"

text \<open>
  The images that the parser of the example returns are image records or, to have a
  value that JSON cannot encode, \<open>bytes\<close> objects; \<open>jsonify\<close> raises on a list that
  holds one of the latter.
\<close>

datatype image_value = Image_record dict | Image_bytes bytes

fun is_bytes :: "image_value \<Rightarrow> bool" where
  "is_bytes (Image_record d) = False"
| "is_bytes (Image_bytes b) = True"

definition bytes_not_serializable :: "image_value list \<Rightarrow> exn option" where
  "bytes_not_serializable images =
     (if list_ex is_bytes images
      then Some (Exception ''Object of type bytes is not JSON serializable'')
      else None)"

definition demo_env ::
  "(call \<Rightarrow> exn + repository list) \<Rightarrow> (call \<Rightarrow> exn + int artifact list) \<Rightarrow>
     (nat, string list, image_value) env" where
  "demo_env repos_of arts_of =
     \<lparr>crictl_images = Inr (1, [], ''permission denied''),
      decode = Inr,
      load_ignored_image_ids = (\<lambda>path. Inr []),
      parse_crictl_images_output = (\<lambda>output ignored. Inr []),
      naturalsize = (\<lambda>n. if n < 1000000 then ''under 1 MB'' else ''over 1 MB''),
      harbor_projects = (\<lambda>c w. (Inr demo_projects, Suc w)),
      harbor_repositories = (\<lambda>c w. (repos_of c, Suc w)),
      harbor_artifacts = (\<lambda>c w. (arts_of c, Suc w)),
      jsonify_error = bytes_not_serializable\<rparr>"

definition two_tags :: "int artifact list" where
  "two_tags =
     [\<lparr>a_digest = ''sha256:ab'', a_size = 2500000,
       a_tags = Present [\<lparr>t_name = ''1.0''\<rparr>, \<lparr>t_name = ''latest''\<rparr>]\<rparr>]"

definition cuda_fails :: "call \<Rightarrow> exn + int artifact list" where
  "cuda_fails c =
     (if c_url c = ''https://harbor.local/api/v2.0/projects/nvcr.io/repositories/nvidia%252Fcuda/artifacts''
      then Inl (Exception ''500 Server Error'')
      else if c_url c = ''https://harbor.local/api/v2.0/projects/nvcr.io/repositories/nvidia%252Fpytorch/artifacts''
      then Inr two_tags
      else Inr [])"

definition five_artifacts :: "int artifact list" where
  "five_artifacts =
     [\<lparr>a_digest = ''sha256:01'', a_size = 100, a_tags = Present [\<lparr>t_name = ''v1''\<rparr>]\<rparr>,
      \<lparr>a_digest = ''sha256:02'', a_size = 200, a_tags = Present [\<lparr>t_name = ''v2''\<rparr>]\<rparr>,
      \<lparr>a_digest = ''sha256:03'', a_size = 300, a_tags = Present [\<lparr>t_name = ''v3''\<rparr>]\<rparr>,
      \<lparr>a_digest = ''sha256:04'', a_size = 4000000, a_tags = Present [\<lparr>t_name = ''v4''\<rparr>]\<rparr>,
      \<lparr>a_digest = ''sha256:05'', a_size = 5000000, a_tags = Present [\<lparr>t_name = ''v5''\<rparr>]\<rparr>]"

definition nvcr_listing_fails :: "call \<Rightarrow> exn + repository list" where
  "nvcr_listing_fails c =
     (if c_url c = ''https://harbor.local/api/v2.0/projects/nvcr.io/repositories''
      then Inl (Exception ''503 Service Unavailable'')
      else Inr (demo_repos_of c))"

definition projects_unauthorized ::
  "call \<Rightarrow> nat \<Rightarrow> (exn + project list) \<times> nat" where
  "projects_unauthorized c w = (Inl (Exception ''401 Unauthorized''), Suc w)"



section \<open>Properties of the encoder\<close>

lemma split1_no_sep: "sep \<notin> set s \<Longrightarrow> split1 sep s = [s]"
  by (induction s) auto

lemma split1_at_sep: "sep \<notin> set a \<Longrightarrow> split1 sep (a @ sep # rest) = [a, rest]"
  by (induction a) auto

lemma replace_concat_map:
  "replace old new s = concat (map (\<lambda>c. if c = old then new else [c]) s)"
  by (induction s) auto

lemma replace_no_old: "old \<notin> set s \<Longrightarrow> replace old new s = s"
  by (induction s) auto

lemma replace_removes_old: "old \<notin> set new \<Longrightarrow> old \<notin> set (replace old new s)"
  by (induction s) auto

lemma startswith_append: "startswith (p @ s) p"
  by (simp add: startswith_def)

lemma startswith_needs_elems: "startswith s p \<Longrightarrow> set p \<subseteq> set s"
  unfolding startswith_def by (metis set_take_subset)

lemma encode_no_slash: "CHR ''/'' \<notin> set (encode_repository_name full_repo_name project_name)"
  unfolding encode_repository_name_def Let_def
  by (rule replace_removes_old) simp

lemma encode_of_slash_free:
  assumes "CHR ''/'' \<notin> set s"
  shows "encode_repository_name s p = s"
proof -
  have "\<not> startswith s (p @ ''/'')"
    using assms startswith_needs_elems [of s "p @ ''/''"] by auto
  then show ?thesis
    using assms
    by (simp add: encode_repository_name_def split1_no_sep replace_no_old)
qed

text \<open>
  C1. The encoder strips a leading \<open>project/\<close> prefix when the name has it; otherwise it
  takes what follows the first \<open>/\<close>, or the whole name when there is no \<open>/\<close>; in the
  chosen path every \<open>/\<close> is replaced by \<open>%252F\<close> and every other character is kept.
  The two examples of the docstring hold.
\<close>

theorem encode_repository_name_spec:
  "(encode_repository_name (project_name @ ''/'' @ rest) project_name
      = replace (CHR ''/'') ''%252F'' rest)
   \<and> (\<not> startswith (a @ ''/'' @ rest) (project_name @ ''/'') \<and> CHR ''/'' \<notin> set a
        \<longrightarrow> encode_repository_name (a @ ''/'' @ rest) project_name
              = replace (CHR ''/'') ''%252F'' rest)
   \<and> (CHR ''/'' \<notin> set full_repo_name
        \<longrightarrow> encode_repository_name full_repo_name project_name = full_repo_name)
   \<and> replace (CHR ''/'') ''%252F'' s
        = concat (map (\<lambda>c. if c = CHR ''/'' then ''%252F'' else [c]) s)
   \<and> encode_repository_name ''nvcr.io/nvidia/pytorch'' ''nvcr.io'' = ''nvidia%252Fpytorch''
   \<and> encode_repository_name ''custom/my-image'' ''custom'' = ''my-image''"
proof -
  have strip_prefix: "encode_repository_name (project_name @ ''/'' @ rest) project_name
      = replace (CHR ''/'') ''%252F'' rest"
    using startswith_append [of "project_name @ ''/''" rest]
    by (simp add: encode_repository_name_def)
  have fallback: "encode_repository_name (a @ ''/'' @ rest) project_name
      = replace (CHR ''/'') ''%252F'' rest"
    if "\<not> startswith (a @ ''/'' @ rest) (project_name @ ''/'')" "CHR ''/'' \<notin> set a"
    using that split1_at_sep [of "CHR ''/''" a rest]
    by (simp add: encode_repository_name_def)
  have ex1: "encode_repository_name ''nvcr.io/nvidia/pytorch'' ''nvcr.io'' = ''nvidia%252Fpytorch''"
    by (simp add: encode_repository_name_def startswith_def)
  have ex2: "encode_repository_name ''custom/my-image'' ''custom'' = ''my-image''"
    by (simp add: encode_repository_name_def startswith_def)
  show ?thesis
    using strip_prefix fallback ex1 ex2 encode_of_slash_free [of full_repo_name project_name]
      replace_concat_map [of "CHR ''/''" "''%252F''" s]
    by blast
qed

theorem encode_repository_name_spec_witness:
  "\<not> startswith (''library'' @ ''/'' @ ''team/app'') (''nvcr.io'' @ ''/'')
   \<and> CHR ''/'' \<notin> set ''library''
   \<and> encode_repository_name (''library'' @ ''/'' @ ''team/app'') ''nvcr.io''
       = replace (CHR ''/'') ''%252F'' ''team/app''
   \<and> replace (CHR ''/'') ''%252F'' ''team/app'' = ''team%252Fapp''
   \<and> CHR ''/'' \<notin> set ''plain''
   \<and> encode_repository_name ''plain'' ''nvcr.io'' = ''plain''"
proof -
  have h1: "\<not> startswith (''library'' @ ''/'' @ ''team/app'') (''nvcr.io'' @ ''/'')"
    by (simp add: startswith_def)
  have h2: "CHR ''/'' \<notin> set ''library''" by simp
  have h3: "CHR ''/'' \<notin> set ''plain''" by simp
  have r: "replace (CHR ''/'') ''%252F'' ''team/app'' = ''team%252Fapp''" by simp
  show ?thesis
    using h1 h2 h3 r
      encode_repository_name_spec [of "''nvcr.io''" "''team/app''" "''library''" "''plain''" "[]"]
    by blast
qed

text \<open>
  C9. The output of the encoder has no \<open>/\<close>, so encoding it again with the same project
  name changes nothing.
\<close>

theorem encode_repository_name_idempotent:
  "encode_repository_name (encode_repository_name full_repo_name project_name) project_name
     = encode_repository_name full_repo_name project_name
   \<and> CHR ''/'' \<notin> set (encode_repository_name full_repo_name project_name)"
  using encode_no_slash [of full_repo_name project_name]
    encode_of_slash_free [of "encode_repository_name full_repo_name project_name" project_name]
  by simp

section \<open>The loops as list comprehensions\<close>

lemma tag_loop_eq:
  "tag_loop f p a ts images = images @ map (\<lambda>t. [(''repository'', f), (''tag'', t_name t), (''digest'', a_digest a),
                              (''size'', a_size a), (''project'', p)]) ts"
  by (induction ts arbitrary: images) simp_all

lemma artifact_loop_eq:
  "artifact_loop f p as images
     = images @ concat (map (\<lambda>a. map (\<lambda>t. [(''repository'', f), (''tag'', t_name t), (''digest'', a_digest a),
                              (''size'', a_size a), (''project'', p)]) (tags_of a)) as)"
  by (induction as arbitrary: images) (simp_all add: tag_loop_eq tags_of_def split: field.split)

lemma artifact_loop_humanized:
  "artifact_loop f p (humanize_sizes nsize as) images = images @ repo_records nsize f p as"
  by (simp add: artifact_loop_eq humanize_sizes_def repo_records_def tags_of_def comp_def)

lemma repo_records_append:
  "repo_records nsize f p (as1 @ as2) = repo_records nsize f p as1 @ repo_records nsize f p as2"
  by (simp add: repo_records_def)

lemma repo_records_untagged:
  assumes "a_tags a = Absent \<or> a_tags a = Null \<or> a_tags a = Present []"
  shows "repo_records nsize f p [a] = []"
  using assms by (auto simp: repo_records_def tags_of_def)

lemma repo_records_one_tag_each:
  assumes "\<And>a. a \<in> set as \<Longrightarrow> \<exists>t. a_tags a = Present [t]"
  shows "length (repo_records nsize f p as) = length as"
  using assms
proof (induction as)
  case Nil
  show ?case by (simp add: repo_records_def)
next
  case (Cons a as)
  obtain t where "a_tags a = Present [t]" using Cons.prems [of a] by auto
  moreover have "length (repo_records nsize f p as) = length as" using Cons by simp
  ultimately show ?case by (simp add: repo_records_def tags_of_def)
qed

lemma length_concat_const:
  assumes "\<And>p r. p \<in> set ps \<Longrightarrow> r \<in> set (R p) \<Longrightarrow> length (g p r) = k"
  shows "length (concat (map (\<lambda>p. concat (map (g p) (R p))) ps))
           = k * length (concat (map R ps))"
  using assms
proof (induction ps)
  case Nil
  show ?case by simp
next
  case (Cons p ps)
  have inner: "length (concat (map (g p) rs)) = k * length rs" if "set rs \<subseteq> set (R p)" for rs
    using that Cons.prems [of p] by (induction rs) (auto simp: algebra_simps)
  have "length (concat (map (\<lambda>p. concat (map (g p) (R p))) ps)) = k * length (concat (map R ps))"
    using Cons by simp
  then show ?case using inner [of "R p"] by (simp add: algebra_simps)
qed

subsection \<open>The walk of a registry with given answers\<close>

lemma repo_loop_static:
  assumes "\<And>c w'. fst (harbor_artifacts env c w') = arts_of c"
  shows "\<exists>w'. repo_loop env cfg pname repos images errs w
     = (images @ repo_images (naturalsize env) cfg arts_of pname repos,
        errs @ repo_errors cfg arts_of pname repos, w')"
proof (induction repos arbitrary: images errs w)
  case Nil
  show ?case by (simp add: repo_images_def repo_errors_def)
next
  case (Cons r rs)
  obtain x w1 where call: "harbor_artifacts env (artifacts_call cfg pname (r_name r)) w = (x, w1)"
    by (cases "harbor_artifacts env (artifacts_call cfg pname (r_name r)) w")
  with assms [of "artifacts_call cfg pname (r_name r)" w]
  have x: "arts_of (artifacts_call cfg pname (r_name r)) = x" by simp
  show ?case
  proof (cases x)
    case (Inl e)
    from Cons.IH [of images "errs @ [[(''source'', ''harbor''), (''repository'', r_name r), (''error'', ''Failed to fetch artifacts: '' @ str e)]]" w1]
    show ?thesis using call x Inl
      by (auto simp: repo_images_def repo_errors_def)
  next
    case (Inr as)
    from Cons.IH [of "images @ repo_records (naturalsize env) (r_name r) pname as" errs w1]
    show ?thesis using call x Inr
      by (auto simp: repo_images_def repo_errors_def artifact_loop_humanized)
  qed
qed

lemma project_loop_static:
  assumes repos: "\<And>c w'. fst (harbor_repositories env c w') = Inr (repos_of c)"
      and arts: "\<And>c w'. fst (harbor_artifacts env c w') = arts_of c"
  shows "\<exists>w'. project_loop env cfg projects images errs w
     = (Inr (images @ walk_images (naturalsize env) cfg repos_of arts_of projects),
        errs @ walk_errors cfg repos_of arts_of projects, w')"
proof (induction projects arbitrary: images errs w)
  case Nil
  show ?case by (simp add: walk_images_def walk_errors_def)
next
  case (Cons p ps)
  obtain x w1 where call: "harbor_repositories env (repositories_call cfg (p_name p)) w = (x, w1)"
    by (cases "harbor_repositories env (repositories_call cfg (p_name p)) w")
  with repos [of "repositories_call cfg (p_name p)" w]
  have x: "x = Inr (repos_of (repositories_call cfg (p_name p)))" by simp
  obtain w2 where inner: "repo_loop env cfg (p_name p) (repos_of (repositories_call cfg (p_name p))) images errs w1
     = (images @ repo_images (naturalsize env) cfg arts_of (p_name p) (repos_of (repositories_call cfg (p_name p))),
        errs @ repo_errors cfg arts_of (p_name p) (repos_of (repositories_call cfg (p_name p))), w2)"
    using repo_loop_static [OF arts] by blast
  from Cons.IH [of "images @ repo_images (naturalsize env) cfg arts_of (p_name p) (repos_of (repositories_call cfg (p_name p)))"
       "errs @ repo_errors cfg arts_of (p_name p) (repos_of (repositories_call cfg (p_name p)))" w2]
  show ?case using call x inner
    by (auto simp: walk_images_def walk_errors_def Let_def)
qed

lemma harbor_try_static:
  assumes projects: "fst (harbor_projects env (projects_call cfg) w) = Inr projects"
      and repos: "\<And>c w'. fst (harbor_repositories env c w') = Inr (repos_of c)"
      and arts: "\<And>c w'. fst (harbor_artifacts env c w') = arts_of c"
  shows "\<exists>w'. harbor_try env cfg errs w
     = (Inr (walk_images (naturalsize env) cfg repos_of arts_of projects),
        errs @ walk_errors cfg repos_of arts_of projects, w')"
proof -
  obtain w1 where call: "harbor_projects env (projects_call cfg) w = (Inr projects, w1)"
    using projects by (cases "harbor_projects env (projects_call cfg) w") auto
  obtain w2 where "project_loop env cfg projects [] errs w1
     = (Inr ([] @ walk_images (naturalsize env) cfg repos_of arts_of projects),
        errs @ walk_errors cfg repos_of arts_of projects, w2)"
    using project_loop_static [OF repos arts] by blast
  then show ?thesis using call by (simp add: harbor_try_def)
qed

lemma walk_images_unfold:
  "walk_images nsize cfg repos_of arts_of projects
     = concat (map (\<lambda>p. concat (map (\<lambda>r.
                  case arts_of (artifacts_call cfg (p_name p) (r_name r)) of
                    Inl e \<Rightarrow> []
                  | Inr as \<Rightarrow>
                      concat (map (\<lambda>a. map (\<lambda>t.
                          [(''repository'', r_name r), (''tag'', t_name t),
                           (''digest'', a_digest a), (''size'', nsize (a_size a)),
                           (''project'', p_name p)])
                        (tags_of a)) as))
                (repos_of (repositories_call cfg (p_name p))))) projects)"
  unfolding walk_images_def repo_images_def repo_records_def by (rule refl)

lemma walk_images_count:
  assumes five: "\<And>p r. p \<in> set projects \<Longrightarrow> r \<in> set (repos_of (repositories_call cfg (p_name p))) \<Longrightarrow>
            \<exists>as. arts_of (artifacts_call cfg (p_name p) (r_name r)) = Inr as
                  \<and> length as = k \<and> (\<forall>a \<in> set as. \<exists>t. a_tags a = Present [t])"
  shows "length (walk_images nsize cfg repos_of arts_of projects)
           = k * length (concat (map (\<lambda>p. repos_of (repositories_call cfg (p_name p))) projects))"
proof -
  let ?g = "\<lambda>p r. case arts_of (artifacts_call cfg (p_name p) (r_name r)) of
                    Inl e \<Rightarrow> []
                  | Inr as \<Rightarrow> repo_records nsize (r_name r) (p_name p) as"
  let ?R = "\<lambda>p. repos_of (repositories_call cfg (p_name p))"
  have each: "length (?g p r) = k" if pr: "p \<in> set projects" "r \<in> set (?R p)" for p r
  proof -
    obtain as where as: "arts_of (artifacts_call cfg (p_name p) (r_name r)) = Inr as"
      "length as = k" "\<forall>a \<in> set as. \<exists>t. a_tags a = Present [t]"
      using five [OF pr] by auto
    have "length (repo_records nsize (r_name r) (p_name p) as) = length as"
      by (rule repo_records_one_tag_each) (use as in blast)
    then show ?thesis using as by simp
  qed
  have "length (concat (map (\<lambda>p. concat (map (?g p) (?R p))) projects))
      = k * length (concat (map ?R projects))"
    by (rule length_concat_const) (rule each)
  then show ?thesis by (simp add: walk_images_def repo_images_def)
qed

subsection \<open>Splitting the loops\<close>

lemma repo_loop_append:
  "repo_loop env cfg pname (rs1 @ rs2) images errs w
     = (case repo_loop env cfg pname rs1 images errs w of
          (images', errs', w') \<Rightarrow> repo_loop env cfg pname rs2 images' errs' w')"
  by (induction rs1 arbitrary: images errs w) (auto simp: Let_def split: prod.splits sum.splits)

lemma project_loop_append:
  "project_loop env cfg (ps1 @ ps2) images errs w
     = (case project_loop env cfg ps1 images errs w of
          (Inr images', errs', w') \<Rightarrow> project_loop env cfg ps2 images' errs' w'
        | (Inl e, errs', w') \<Rightarrow> (Inl e, errs', w'))"
  by (induction ps1 arbitrary: images errs w) (auto simp: Let_def split: prod.splits sum.splits)

lemma repo_loop_failure_step:
  assumes "repo_loop env cfg pname rs1 images errs w = (images1, errs1, w1)"
      and "harbor_artifacts env (artifacts_call cfg pname (r_name r)) w1 = (Inl e, w2)"
  shows "repo_loop env cfg pname (rs1 @ r # rs2) images errs w
     = repo_loop env cfg pname rs2 images1
         (errs1 @ [[(''source'', ''harbor''), (''repository'', r_name r),
                    (''error'', ''Failed to fetch artifacts: '' @ str e)]]) w2"
  using assms by (simp add: repo_loop_append)

lemma repo_loop_success_step:
  assumes "repo_loop env cfg pname rs1 images errs w = (images1, errs1, w1)"
      and "harbor_artifacts env (artifacts_call cfg pname (r_name r)) w1 = (Inr as, w2)"
  shows "repo_loop env cfg pname (rs1 @ r # rs2) images errs w
     = repo_loop env cfg pname rs2
         (images1 @ concat (map (\<lambda>a. map (\<lambda>t.
             [(''repository'', r_name r), (''tag'', t_name t), (''digest'', a_digest a),
              (''size'', naturalsize env (a_size a)), (''project'', pname)])
           (tags_of a)) as))
         errs1 w2"
  using assms by (simp add: repo_loop_append artifact_loop_humanized repo_records_def)

lemma repo_loop_keeps_images:
  "\<exists>more. fst (repo_loop env cfg pname repos images errs w) = images @ more"
proof (induction repos arbitrary: images errs w)
  case Nil
  show ?case by simp
next
  case (Cons r rs)
  show ?case
  proof (cases "harbor_artifacts env (artifacts_call cfg pname (r_name r)) w")
    case (Pair x w1)
    show ?thesis
    proof (cases x)
      case (Inl e)
      then show ?thesis using Pair Cons.IH by simp
    next
      case (Inr as)
      obtain more where "fst (repo_loop env cfg pname rs
          (images @ repo_records (naturalsize env) (r_name r) pname as) errs w1)
        = (images @ repo_records (naturalsize env) (r_name r) pname as) @ more"
        using Cons.IH by blast
      then show ?thesis using Pair Inr by (simp add: artifact_loop_humanized)
    qed
  qed
qed

lemma harbor_try_projects_fail:
  assumes "harbor_projects env (projects_call cfg) w = (Inl e, w1)"
  shows "harbor_try env cfg errs w = (Inl e, errs, w1)"
  using assms by (simp add: harbor_try_def)

lemma harbor_try_repositories_fail:
  assumes "harbor_projects env (projects_call cfg) w = (Inr (ps1 @ p # ps2), w1)"
      and "project_loop env cfg ps1 [] errs w1 = (Inr images1, errs1, w2)"
      and "harbor_repositories env (repositories_call cfg (p_name p)) w2 = (Inl e, w3)"
  shows "harbor_try env cfg errs w = (Inl e, errs1, w3)"
  using assms by (simp add: harbor_try_def project_loop_append)

subsection \<open>The error list\<close>

lemma scoped_entry: "scoped [(''source'', ''harbor''), (''repository'', r), (''error'', m)]"
  by (simp add: scoped_def)

lemma repo_loop_errors:
  "\<exists>es. fst (snd (repo_loop env cfg pname repos images errs w)) = errs @ es \<and> list_all scoped es"
proof (induction repos arbitrary: images errs w)
  case Nil
  show ?case by simp
next
  case (Cons r rs)
  show ?case
  proof (cases "harbor_artifacts env (artifacts_call cfg pname (r_name r)) w")
    case (Pair x w1)
    show ?thesis
    proof (cases x)
      case (Inl e)
      obtain es where "fst (snd (repo_loop env cfg pname rs images
          (errs @ [[(''source'', ''harbor''), (''repository'', r_name r),
                    (''error'', ''Failed to fetch artifacts: '' @ str e)]]) w1))
        = (errs @ [[(''source'', ''harbor''), (''repository'', r_name r),
                    (''error'', ''Failed to fetch artifacts: '' @ str e)]]) @ es" "list_all scoped es"
        using Cons.IH by blast
      then show ?thesis using Pair Inl
        by (intro exI [of _ "[(''source'', ''harbor''), (''repository'', r_name r),
                    (''error'', ''Failed to fetch artifacts: '' @ str e)] # es"])
           (simp add: scoped_entry)
    next
      case (Inr as)
      then show ?thesis using Pair Cons.IH by simp
    qed
  qed
qed

lemma project_loop_errors:
  "\<exists>es. fst (snd (project_loop env cfg projects images errs w)) = errs @ es \<and> list_all scoped es"
proof (induction projects arbitrary: images errs w)
  case Nil
  show ?case by simp
next
  case (Cons p ps)
  show ?case
  proof (cases "harbor_repositories env (repositories_call cfg (p_name p)) w")
    case (Pair x w1)
    show ?thesis
    proof (cases x)
      case (Inl e)
      then show ?thesis using Pair by simp
    next
      case (Inr repos)
      obtain i1 e1 w2 where inner: "repo_loop env cfg (p_name p) repos images errs w1 = (i1, e1, w2)"
        by (cases "repo_loop env cfg (p_name p) repos images errs w1") auto
      obtain es1 where es1: "e1 = errs @ es1" "list_all scoped es1"
        using repo_loop_errors [of env cfg "p_name p" repos images errs w1] inner by auto
      obtain es2 where es2: "fst (snd (project_loop env cfg ps i1 e1 w2)) = e1 @ es2" "list_all scoped es2"
        using Cons.IH by blast
      show ?thesis using Pair Inr inner es1 es2
        by (intro exI [of _ "es1 @ es2"]) simp
    qed
  qed
qed

lemma repo_loop_errs:
  "repo_loop env cfg pname repos images (errs0 @ errs) w
     = (case repo_loop env cfg pname repos images errs w of
          (images', es, w') \<Rightarrow> (images', errs0 @ es, w'))"
proof (induction repos arbitrary: images errs w)
  case Nil
  show ?case by simp
next
  case (Cons r rs)
  show ?case
  proof (cases "harbor_artifacts env (artifacts_call cfg pname (r_name r)) w")
    case (Pair x w1)
    show ?thesis
    proof (cases x)
      case (Inl e)
      show ?thesis
        using Pair Inl
          Cons.IH [of images "errs @ [[(''source'', ''harbor''), (''repository'', r_name r),
            (''error'', ''Failed to fetch artifacts: '' @ str e)]]" w1]
        by simp
    next
      case (Inr as)
      show ?thesis using Pair Inr Cons.IH by simp
    qed
  qed
qed

lemma project_loop_errs:
  "project_loop env cfg projects images (errs0 @ errs) w
     = (case project_loop env cfg projects images errs w of
          (x, es, w') \<Rightarrow> (x, errs0 @ es, w'))"
proof (induction projects arbitrary: images errs w)
  case Nil
  show ?case by simp
next
  case (Cons p ps)
  show ?case
  proof (cases "harbor_repositories env (repositories_call cfg (p_name p)) w")
    case (Pair x w1)
    show ?thesis
    proof (cases x)
      case (Inl e)
      show ?thesis using Pair Inl by simp
    next
      case (Inr repos)
      obtain i1 e1 w2 where inner: "repo_loop env cfg (p_name p) repos images errs w1 = (i1, e1, w2)"
        by (cases "repo_loop env cfg (p_name p) repos images errs w1") auto
      then have inner': "repo_loop env cfg (p_name p) repos images (errs0 @ errs) w1 = (i1, errs0 @ e1, w2)"
        by (simp add: repo_loop_errs)
      show ?thesis using Pair Inr inner inner' Cons.IH [of i1 e1 w2] by simp
    qed
  qed
qed

lemma harbor_try_errs:
  "harbor_try env cfg errs w
     = (case harbor_try env cfg [] w of (x, es, w') \<Rightarrow> (x, errs @ es, w'))"
proof (cases "harbor_projects env (projects_call cfg) w")
  case (Pair x w1)
  show ?thesis
  proof (cases x)
    case (Inl e)
    show ?thesis using Pair Inl by (simp add: harbor_try_def)
  next
    case (Inr projects)
    show ?thesis
      using Pair Inr project_loop_errs [of env cfg projects "[]" errs "[]" w1]
      by (simp add: harbor_try_def)
  qed
qed

lemma filter_harbor_containerd:
  "list_all from_containerd es \<Longrightarrow> filter (\<lambda>d. map_of d ''source'' = Some ''harbor'') es = []"
  by (induction es) (auto simp: from_containerd_def)

lemma filter_unscoped:
  assumes "list_all from_containerd es1" "list_all scoped es2"
  shows "filter (\<lambda>d. map_of d ''source'' = Some ''harbor'' \<and> map_of d ''repository'' = None)
           (es1 @ es2 @ [[(''source'', ''harbor''), (''error'', m)]])
         = [[(''source'', ''harbor''), (''error'', m)]]"
proof -
  have "filter (\<lambda>d. map_of d ''source'' = Some ''harbor'' \<and> map_of d ''repository'' = None) es1 = []"
    using assms(1) by (induction es1) (auto simp: from_containerd_def)
  moreover have "filter (\<lambda>d. map_of d ''source'' = Some ''harbor'' \<and> map_of d ''repository'' = None) es2 = []"
    using assms(2) by (induction es2) (auto simp: scoped_def)
  ultimately show ?thesis by simp
qed

subsection \<open>What each branch reads and writes\<close>

lemma repo_loop_env:
  assumes "naturalsize env = naturalsize env'" "harbor_artifacts env = harbor_artifacts env'"
  shows "repo_loop env cfg pname repos images errs w = repo_loop env' cfg pname repos images errs w"
  using assms
  by (induction repos arbitrary: images errs w) (simp_all add: Let_def split: prod.split sum.split)

lemma project_loop_env:
  assumes "naturalsize env = naturalsize env'" "harbor_artifacts env = harbor_artifacts env'"
    "harbor_repositories env = harbor_repositories env'"
  shows "project_loop env cfg projects images errs w
           = project_loop env' cfg projects images errs w"
  using assms
  by (induction projects arbitrary: images errs w)
     (simp_all add: Let_def repo_loop_env [of env env'] split: prod.split sum.split)

lemma harbor_try_env:
  assumes "naturalsize env = naturalsize env'" "harbor_artifacts env = harbor_artifacts env'"
    "harbor_repositories env = harbor_repositories env'"
    "harbor_projects env = harbor_projects env'"
  shows "harbor_try env cfg errs w = harbor_try env' cfg errs w"
  using assms project_loop_env [of env env' cfg]
  by (simp add: harbor_try_def split: prod.split sum.split)

lemma harbor_try_frame:
  "harbor_try
     (env\<lparr>crictl_images := c, decode := d, load_ignored_image_ids := l,
          parse_crictl_images_output := p\<rparr>) cfg errs w
   = harbor_try env cfg errs w"
  by (rule harbor_try_env) simp_all

lemma containerd_branch_harbor_images:
  "harbor_images (containerd_branch env settings result) = harbor_images result"
  by (simp add: containerd_branch_def containerd_try_def split: sum.split prod.split)

lemma containerd_branch_errors:
  "\<exists>es. errors (containerd_branch env settings result) = errors result @ es
        \<and> list_all from_containerd es"
proof (cases "containerd_try env settings result")
  case (Inl e)
  then show ?thesis
    by (intro exI [of _ "[[(''source'', ''containerd''), (''error'', str e)]]"])
       (simp add: containerd_branch_def from_containerd_def)
next
  case (Inr r)
  then have "errors r = errors result \<or> (\<exists>m. errors r = errors result @ [[(''source'', ''containerd''), (''error'', m)]])"
    by (auto simp: containerd_try_def split: sum.splits prod.splits if_splits)
  then show ?thesis
  proof
    assume "errors r = errors result"
    then show ?thesis using Inr by (intro exI [of _ "[]"]) (simp add: containerd_branch_def)
  next
    assume "\<exists>m. errors r = errors result @ [[(''source'', ''containerd''), (''error'', m)]]"
    then obtain m where "errors r = errors result @ [[(''source'', ''containerd''), (''error'', m)]]" ..
    then show ?thesis using Inr
      by (intro exI [of _ "[[(''source'', ''containerd''), (''error'', m)]]"])
         (simp add: containerd_branch_def from_containerd_def)
  qed
qed

lemma containerd_branch_frame:
  "containerd_branch
     (env\<lparr>harbor_projects := hp, harbor_repositories := hr, harbor_artifacts := ha\<rparr>)
     (settings\<lparr>harbor_config := hc\<rparr>) result
   = containerd_branch env settings result"
proof -
  have "containerd_try
     (env\<lparr>harbor_projects := hp, harbor_repositories := hr, harbor_artifacts := ha\<rparr>)
     (settings\<lparr>harbor_config := hc\<rparr>) result
   = containerd_try env settings result"
    by (simp add: containerd_try_def cong: sum.case_cong prod.case_cong if_cong)
  then show ?thesis by (simp add: containerd_branch_def)
qed




lemma harbor_branch_containerd_images:
  "containerd_images (fst (harbor_branch env settings result w)) = containerd_images result"
  by (simp add: harbor_branch_def Let_def split: prod.split sum.split)

lemma harbor_branch_harbor_images:
  "harbor_images (fst (harbor_branch env settings result w))
     = (if url (harbor_config settings) \<noteq> [] \<and> user (harbor_config settings) \<noteq> []
           \<and> password (harbor_config settings) \<noteq> []
        then (case fst (harbor_try env (harbor_config settings) [] w) of
                Inr images \<Rightarrow> images
              | Inl e \<Rightarrow> harbor_images result)
        else harbor_images result)"
proof -
  obtain x es w' where t: "harbor_try env (harbor_config settings) [] w = (x, es, w')"
    by (cases "harbor_try env (harbor_config settings) [] w") auto
  then have "harbor_try env (harbor_config settings) (errors result) w = (x, errors result @ es, w')"
    using harbor_try_errs [of env "harbor_config settings" "errors result" w] by simp
  then show ?thesis
    using t by (cases x) (simp_all add: harbor_branch_def Let_def)
qed

lemma harbor_branch_failure:
  assumes complete: "url (harbor_config settings) \<noteq> []" "user (harbor_config settings) \<noteq> []"
        "password (harbor_config settings) \<noteq> []"
      and "harbor_try env (harbor_config settings) (errors result) w = (Inl e, errs1, w')"
  shows "harbor_branch env settings result w
           = (result\<lparr>errors := errs1 @ [[(''source'', ''harbor''), (''error'', str e)]]\<rparr>, w')"
  using assms by (simp add: harbor_branch_def Let_def)


lemma aggregate_eq:
  "aggregate env settings w
     = harbor_branch env settings
         (containerd_branch env settings
            \<lparr>containerd_images = [], harbor_images = [], errors = []\<rparr>) w"
  by (simp add: aggregate_def)



lemma get_all_images_eq:
  "get_all_images env settings w
     = (jsonify env (fst (aggregate env settings w)), snd (aggregate env settings w))"
  by (simp add: get_all_images_def split: prod.split)

lemma aggregate_static:
  assumes complete: "url (harbor_config settings) \<noteq> []" "user (harbor_config settings) \<noteq> []"
        "password (harbor_config settings) \<noteq> []"
      and projects: "fst (harbor_projects env (projects_call (harbor_config settings)) w) = Inr projects"
      and repos: "\<And>c w'. fst (harbor_repositories env c w') = Inr (repos_of c)"
      and arts: "\<And>c w'. fst (harbor_artifacts env c w') = arts_of c"
  shows "fst (aggregate env settings w)
     = (containerd_branch env settings \<lparr>containerd_images = [], harbor_images = [], errors = []\<rparr>)
         \<lparr>harbor_images := walk_images (naturalsize env) (harbor_config settings) repos_of arts_of projects,
          errors := errors (containerd_branch env settings
                       \<lparr>containerd_images = [], harbor_images = [], errors = []\<rparr>)
                    @ walk_errors (harbor_config settings) repos_of arts_of projects\<rparr>"
proof -
  let ?c = "containerd_branch env settings
              \<lparr>containerd_images = [], harbor_images = [], errors = []\<rparr>"
  obtain w' where "harbor_try env (harbor_config settings) (errors ?c) w
     = (Inr (walk_images (naturalsize env) (harbor_config settings) repos_of arts_of projects),
        errors ?c @ walk_errors (harbor_config settings) repos_of arts_of projects, w')"
    using harbor_try_static [OF projects repos arts] by blast
  then show ?thesis
    using complete by (simp add: aggregate_eq harbor_branch_def Let_def)
qed

lemma errors_and_images_static:
  assumes complete: "url (harbor_config settings) \<noteq> []" "user (harbor_config settings) \<noteq> []"
        "password (harbor_config settings) \<noteq> []"
      and projects: "fst (harbor_projects env (projects_call (harbor_config settings)) w) = Inr projects"
      and repos: "\<And>c w'. fst (harbor_repositories env c w') = Inr (repos_of c)"
      and arts: "\<And>c w'. fst (harbor_artifacts env c w') = arts_of c"
  shows "errors (fst (aggregate env settings w))
           = errors (containerd_branch env settings
                       \<lparr>containerd_images = [], harbor_images = [], errors = []\<rparr>)
             @ concat (map (\<lambda>p. concat (map (\<lambda>r.
                  case arts_of (artifacts_call (harbor_config settings) (p_name p) (r_name r)) of
                    Inl e \<Rightarrow> [[(''source'', ''harbor''), (''repository'', r_name r),
                                (''error'', ''Failed to fetch artifacts: '' @ str e)]]
                  | Inr as \<Rightarrow> [])
                (repos_of (repositories_call (harbor_config settings) (p_name p))))) projects)
         \<and> harbor_images (fst (aggregate env settings w))
           = concat (map (\<lambda>p. concat (map (\<lambda>r.
                  case arts_of (artifacts_call (harbor_config settings) (p_name p) (r_name r)) of
                    Inl e \<Rightarrow> []
                  | Inr as \<Rightarrow> repo_records (naturalsize env) (r_name r) (p_name p) as)
                (repos_of (repositories_call (harbor_config settings) (p_name p))))) projects)"
  using aggregate_static [OF complete projects repos arts]
  by (simp add: walk_images_def walk_errors_def repo_images_def repo_errors_def)

lemma records_static:
  assumes complete: "url (harbor_config settings) \<noteq> []" "user (harbor_config settings) \<noteq> []"
        "password (harbor_config settings) \<noteq> []"
      and projects: "fst (harbor_projects env (projects_call (harbor_config settings)) w) = Inr projects"
      and repos: "\<And>c w'. fst (harbor_repositories env c w') = Inr (repos_of c)"
      and arts: "\<And>c w'. fst (harbor_artifacts env c w') = arts_of c"
  shows "harbor_images (fst (aggregate env settings w))
           = concat (map (\<lambda>p. concat (map (\<lambda>r.
                  case arts_of (artifacts_call (harbor_config settings) (p_name p) (r_name r)) of
                    Inl e \<Rightarrow> []
                  | Inr as \<Rightarrow>
                      concat (map (\<lambda>a. map (\<lambda>t.
                          [(''repository'', r_name r), (''tag'', t_name t),
                           (''digest'', a_digest a), (''size'', naturalsize env (a_size a)),
                           (''project'', p_name p)])
                        (tags_of a)) as))
                (repos_of (repositories_call (harbor_config settings) (p_name p))))) projects)
         \<and> (length projects = 2
              \<and> length (concat (map (\<lambda>p. repos_of (repositories_call (harbor_config settings) (p_name p)))
                                   projects)) = 3
              \<and> (\<forall>p \<in> set projects.
                    \<forall>r \<in> set (repos_of (repositories_call (harbor_config settings) (p_name p))).
                      \<exists>as. arts_of (artifacts_call (harbor_config settings) (p_name p) (r_name r)) = Inr as
                            \<and> length as = 5 \<and> (\<forall>a \<in> set as. \<exists>t. a_tags a = Present [t]))
            \<longrightarrow> length (harbor_images (fst (aggregate env settings w))) = 15)"
proof -
  have eq: "harbor_images (fst (aggregate env settings w))
      = walk_images (naturalsize env) (harbor_config settings) repos_of arts_of projects"
    using aggregate_static [OF complete projects repos arts] by simp
  show ?thesis
  proof (rule conjI)
    show "harbor_images (fst (aggregate env settings w))
           = concat (map (\<lambda>p. concat (map (\<lambda>r.
                  case arts_of (artifacts_call (harbor_config settings) (p_name p) (r_name r)) of
                    Inl e \<Rightarrow> []
                  | Inr as \<Rightarrow>
                      concat (map (\<lambda>a. map (\<lambda>t.
                          [(''repository'', r_name r), (''tag'', t_name t),
                           (''digest'', a_digest a), (''size'', naturalsize env (a_size a)),
                           (''project'', p_name p)])
                        (tags_of a)) as))
                (repos_of (repositories_call (harbor_config settings) (p_name p))))) projects)"
      unfolding eq by (rule walk_images_unfold)
  next
    show "length projects = 2
              \<and> length (concat (map (\<lambda>p. repos_of (repositories_call (harbor_config settings) (p_name p)))
                                   projects)) = 3
              \<and> (\<forall>p \<in> set projects.
                    \<forall>r \<in> set (repos_of (repositories_call (harbor_config settings) (p_name p))).
                      \<exists>as. arts_of (artifacts_call (harbor_config settings) (p_name p) (r_name r)) = Inr as
                            \<and> length as = 5 \<and> (\<forall>a \<in> set as. \<exists>t. a_tags a = Present [t]))
            \<longrightarrow> length (harbor_images (fst (aggregate env settings w))) = 15"
    proof (intro impI, elim conjE)
      assume three: "length (concat (map (\<lambda>p. repos_of (repositories_call (harbor_config settings) (p_name p)))
                                   projects)) = 3"
      assume five: "\<forall>p \<in> set projects.
                    \<forall>r \<in> set (repos_of (repositories_call (harbor_config settings) (p_name p))).
                      \<exists>as. arts_of (artifacts_call (harbor_config settings) (p_name p) (r_name r)) = Inr as
                            \<and> length as = 5 \<and> (\<forall>a \<in> set as. \<exists>t. a_tags a = Present [t])"
      have "length (walk_images (naturalsize env) (harbor_config settings) repos_of arts_of projects)
           = 5 * length (concat (map (\<lambda>p. repos_of (repositories_call (harbor_config settings) (p_name p))) projects))"
        by (rule walk_images_count) (use five in blast)
      then show "length (harbor_images (fst (aggregate env settings w))) = 15"
        unfolding eq using three by simp
    qed
  qed
qed

lemma listing_failure_result:
  fixes env :: "('w, 'ids, 'img) env"
  assumes complete: "url (harbor_config settings) \<noteq> []" "user (harbor_config settings) \<noteq> []"
        "password (harbor_config settings) \<noteq> []"
      and failed: "harbor_try env (harbor_config settings)
                  (errors (containerd_branch env settings
                     \<lparr>containerd_images = [], harbor_images = [], errors = []\<rparr>)) w
                = (Inl e, errs1, w')"
  shows "snd (aggregate env settings w) = w'
       \<and> harbor_images (fst (aggregate env settings w)) = []
       \<and> errors (fst (aggregate env settings w))
           = errs1 @ [[(''source'', ''harbor''), (''error'', str e)]]
       \<and> filter (\<lambda>d. map_of d ''source'' = Some ''harbor'' \<and> map_of d ''repository'' = None)
             (errors (fst (aggregate env settings w)))
           = [[(''source'', ''harbor''), (''error'', str e)]]"
proof -
  let ?c = "containerd_branch env settings
              (\<lparr>containerd_images = [], harbor_images = [], errors = []\<rparr> :: 'img result)"
  have hb: "harbor_branch env settings ?c w
      = (?c\<lparr>errors := errs1 @ [[(''source'', ''harbor''), (''error'', str e)]]\<rparr>, w')"
    using harbor_branch_failure [OF complete failed] .
  obtain es0 where es0: "errors ?c = es0" "list_all from_containerd es0"
    using containerd_branch_errors [of env settings
        "\<lparr>containerd_images = [], harbor_images = [], errors = []\<rparr>"] by auto
  obtain x es w2 where t0: "harbor_try env (harbor_config settings) [] w = (x, es, w2)"
    by (cases "harbor_try env (harbor_config settings) [] w") auto
  have errs1: "errs1 = es0 @ es"
    using failed t0 es0 harbor_try_errs [of env "harbor_config settings" "errors ?c" w] by simp
  have "list_all scoped es"
  proof (cases "harbor_projects env (projects_call (harbor_config settings)) w")
    case (Pair y w1)
    show ?thesis
    proof (cases y)
      case (Inl e')
      then show ?thesis using Pair t0 by (simp add: harbor_try_def)
    next
      case (Inr projects)
      then have "es = fst (snd (project_loop env (harbor_config settings) projects [] [] w1))"
        using Pair t0 by (simp add: harbor_try_def)
      then show ?thesis
        using project_loop_errors [of env "harbor_config settings" projects "[]" "[]" w1] by auto
    qed
  qed
  then have flt: "filter (\<lambda>d. map_of d ''source'' = Some ''harbor'' \<and> map_of d ''repository'' = None)
           (errs1 @ [[(''source'', ''harbor''), (''error'', str e)]])
         = [[(''source'', ''harbor''), (''error'', str e)]]"
    using filter_unscoped [OF es0(2), of es "str e"] errs1 by simp
  have hi: "harbor_images ?c = []" by (simp add: containerd_branch_harbor_images)
  show ?thesis
    using hb hi flt by (simp add: aggregate_eq)
qed

section \<open>The run of the paginated client\<close>

lemma stop_at_pages_needed:
  assumes "0 < P"
  shows "if t then N \<le> pages_needed N t P * P else N < pages_needed N t P * P"
proof (cases t)
  case True
  have "N + P - 1 < P + P * ((N + P - 1) div P)"
    using assms by (rule dividend_less_times_div)
  then have "N \<le> ((N + P - 1) div P) * P" using assms by (simp add: mult.commute)
  also have "\<dots> \<le> max 1 ((N + P - 1) div P) * P" by (rule mult_le_mono1) simp
  finally show ?thesis using True by (simp add: pages_needed_def)
next
  case False
  have "N < P + P * (N div P)" using assms by (rule dividend_less_times_div)
  then show ?thesis using False by (simp add: pages_needed_def mult.commute)
qed

lemma no_stop_before_pages_needed:
  assumes "0 < P" "1 \<le> j" "j < pages_needed N t P"
  shows "\<not> (if t then N \<le> j * P else N < j * P)"
proof (cases t)
  case True
  then have "Suc j \<le> (N + P - 1) div P" using assms by (simp add: pages_needed_def)
  then have "Suc j * P \<le> N + P - 1"
    using assms(1) by (simp add: less_eq_div_iff_mult_less_eq)
  then have "j * P < N" using assms(1) by simp
  then show ?thesis using True by simp
next
  case False
  then have "j \<le> N div P" using assms by (simp add: pages_needed_def)
  then have "j * P \<le> N" using assms(1) by (simp add: less_eq_div_iff_mult_less_eq)
  then show ?thesis using False by simp
qed

lemma page_loop_step:
  assumes "0 < P"
  shows "page_loop (paged_collection all_items t P) P (Suc k) (take (k * P) all_items) requested
     = (if (if t then length all_items \<le> Suc k * P else length all_items < Suc k * P)
        then Some (Inr all_items, requested @ [Suc k])
        else page_loop (paged_collection all_items t P) P (Suc (Suc k))
               (take (Suc k * P) all_items) (requested @ [Suc k]))"
proof -
  have joined: "take (k * P) all_items @ take P (drop (k * P) all_items) = take (Suc k * P) all_items"
    by (simp add: take_add [symmetric] add.commute)
  show ?thesis
    apply (subst page_loop.simps)
    using assms
    apply (simp add: paged_collection_def Let_def joined del: mult_Suc)
    apply (auto simp: min_def)
    done
qed

lemma page_loop_run:
  assumes "0 < P" "k < pages_needed (length all_items) t P"
  shows "page_loop (paged_collection all_items t P) P (Suc k) (take (k * P) all_items) requested
     = Some (Inr all_items, requested @ [Suc k ..< Suc (pages_needed (length all_items) t P)])"
  using assms(2)
proof (induction "pages_needed (length all_items) t P - Suc k" arbitrary: k requested)
  case 0
  then have last: "Suc k = pages_needed (length all_items) t P" by simp
  have "if t then length all_items \<le> Suc k * P else length all_items < Suc k * P"
    using stop_at_pages_needed [OF assms(1), of t "length all_items"] last
    by (cases t) simp_all
  then show ?case
    using page_loop_step [OF assms(1), of all_items t k requested] last [symmetric]
    by (simp del: mult_Suc)
next
  case (Suc m)
  then have more: "Suc k < pages_needed (length all_items) t P" by simp
  have "\<not> (if t then length all_items \<le> Suc k * P else length all_items < Suc k * P)"
    by (rule no_stop_before_pages_needed [OF assms(1) _ more]) simp
  moreover have "page_loop (paged_collection all_items t P) P (Suc (Suc k))
      (take (Suc k * P) all_items) (requested @ [Suc k])
    = Some (Inr all_items, (requested @ [Suc k]) @ [Suc (Suc k) ..< Suc (pages_needed (length all_items) t P)])"
    using Suc.hyps(2) more by (intro Suc.hyps(1)) simp_all
  moreover have "[Suc k ..< Suc (pages_needed (length all_items) t P)]
      = Suc k # [Suc (Suc k) ..< Suc (pages_needed (length all_items) t P)]"
    using more by (simp add: upt_conv_Cons)
  ultimately show ?case
    using page_loop_step [OF assms(1), of all_items t k requested]
    by (simp del: mult_Suc)
qed

lemma page_loop_fail_now:
  "page_loop (failing_at k e get_page) P k results requested = Some (Inl e, requested @ [k])"
  by (subst page_loop.simps) (simp add: failing_at_def)

lemma page_loop_fail_step:
  assumes "0 < P" "Suc j \<noteq> k"
  shows "page_loop (failing_at k e (paged_collection all_items t P)) P (Suc j)
           (take (j * P) all_items) requested
     = (if (if t then length all_items \<le> Suc j * P else length all_items < Suc j * P)
        then Some (Inr all_items, requested @ [Suc j])
        else page_loop (failing_at k e (paged_collection all_items t P)) P (Suc (Suc j))
               (take (Suc j * P) all_items) (requested @ [Suc j]))"
proof -
  have joined: "take (j * P) all_items @ take P (drop (j * P) all_items) = take (Suc j * P) all_items"
    by (simp add: take_add [symmetric] add.commute)
  show ?thesis
    apply (subst page_loop.simps)
    using assms
    apply (simp add: failing_at_def paged_collection_def Let_def joined del: mult_Suc)
    apply (auto simp: min_def)
    done
qed

lemma page_loop_fail_run:
  assumes "0 < P" "j < k" "k \<le> pages_needed (length all_items) t P"
  shows "page_loop (failing_at k e (paged_collection all_items t P)) P (Suc j)
           (take (j * P) all_items) requested
     = Some (Inl e, requested @ [Suc j ..< Suc k])"
  using assms(2)
proof (induction "k - Suc j" arbitrary: j requested)
  case 0
  then have "Suc j = k" by simp
  then show ?case
    using page_loop_fail_now [of k e "paged_collection all_items t P" P
        "take (j * P) all_items" requested]
    by simp
next
  case (Suc m)
  then have more: "Suc j < k" by simp
  then have "Suc j < pages_needed (length all_items) t P" using assms(3) by simp
  then have "\<not> (if t then length all_items \<le> Suc j * P else length all_items < Suc j * P)"
    by (intro no_stop_before_pages_needed [OF assms(1)]) simp_all
  moreover have "page_loop (failing_at k e (paged_collection all_items t P)) P (Suc (Suc j))
      (take (Suc j * P) all_items) (requested @ [Suc j])
    = Some (Inl e, (requested @ [Suc j]) @ [Suc (Suc j) ..< Suc k])"
    using Suc.hyps(2) more by (intro Suc.hyps(1)) simp_all
  moreover have "[Suc j ..< Suc k] = Suc j # [Suc (Suc j) ..< Suc k]"
    using more by (simp add: upt_conv_Cons)
  moreover have "Suc j \<noteq> k" using more by simp
  ultimately show ?case
    using page_loop_fail_step [OF assms(1), of j k e all_items t requested]
    by (simp del: mult_Suc)
qed

section \<open>Properties of the aggregator\<close>

text \<open>
  In the theorems of this section \<open>aggregate\<close> is the dictionary \<open>result\<close> that line
  308 hands to \<open>jsonify\<close>, with the state in which the handler leaves the registry. It is
  the body of the response whenever \<open>jsonify\<close> encodes it: the theorems
  about the result end with the equation that says that the handler returns
  \<open>jsonify\<close> of this result and leaves the registry in this state.
\<close>

text \<open>
  C2, as the code has it. When the configuration is complete and the listing of the
  projects raises, or the listing of the repositories of some project raises after the
  projects before it were walked, the handler makes no further call (the registry is left
  in the state after the failing call), the result has exactly one harbor entry without
  a \<open>repository\<close> key, which is the last entry of \<open>errors\<close> and carries the text of
  the exception, and \<open>harbor_images\<close> is empty: line 293 is not reached, so the images
  collected in the local list before the failure are not in the result.
\<close>

theorem listing_failure_ends_harbor_branch:
  fixes env :: "('w, 'ids, 'img) env"
  assumes complete: "url (harbor_config settings) \<noteq> []" "user (harbor_config settings) \<noteq> []"
        "password (harbor_config settings) \<noteq> []"
  shows "(harbor_projects env (projects_call (harbor_config settings)) w = (Inl e, w1)
          \<longrightarrow> snd (aggregate env settings w) = w1
              \<and> harbor_images (fst (aggregate env settings w)) = []
              \<and> errors (fst (aggregate env settings w))
                  = errors (containerd_branch env settings
                       \<lparr>containerd_images = [], harbor_images = [], errors = []\<rparr>)
                    @ [[(''source'', ''harbor''), (''error'', str e)]]
              \<and> filter (\<lambda>d. map_of d ''source'' = Some ''harbor'' \<and> map_of d ''repository'' = None)
                    (errors (fst (aggregate env settings w)))
                  = [[(''source'', ''harbor''), (''error'', str e)]])
       \<and> (harbor_projects env (projects_call (harbor_config settings)) w = (Inr (ps1 @ p # ps2), w1)
            \<and> project_loop env (harbor_config settings) ps1 []
                 (errors (containerd_branch env settings
                    \<lparr>containerd_images = [], harbor_images = [], errors = []\<rparr>)) w1
               = (Inr images1, errs1, w2)
            \<and> harbor_repositories env (repositories_call (harbor_config settings) (p_name p)) w2
               = (Inl e, w3)
          \<longrightarrow> snd (aggregate env settings w) = w3
              \<and> harbor_images (fst (aggregate env settings w)) = []
              \<and> errors (fst (aggregate env settings w))
                  = errs1 @ [[(''source'', ''harbor''), (''error'', str e)]]
              \<and> filter (\<lambda>d. map_of d ''source'' = Some ''harbor'' \<and> map_of d ''repository'' = None)
                    (errors (fst (aggregate env settings w)))
                  = [[(''source'', ''harbor''), (''error'', str e)]])
       \<and> get_all_images env settings w
         = (jsonify env (fst (aggregate env settings w)), snd (aggregate env settings w))"
  (is "?projects_fail \<and> ?repositories_fail \<and> ?handler")
proof -
  have both: "?projects_fail \<and> ?repositories_fail"
  proof (rule conjI; rule impI)
    let ?errs = "errors (containerd_branch env settings
                   (\<lparr>containerd_images = [], harbor_images = [], errors = []\<rparr> :: 'img result))"
    {
      assume "harbor_projects env (projects_call (harbor_config settings)) w = (Inl e, w1)"
      then have "harbor_try env (harbor_config settings) ?errs w = (Inl e, ?errs, w1)"
        by (rule harbor_try_projects_fail)
      then show "snd (aggregate env settings w) = w1
                \<and> harbor_images (fst (aggregate env settings w)) = []
                \<and> errors (fst (aggregate env settings w))
                    = ?errs @ [[(''source'', ''harbor''), (''error'', str e)]]
                \<and> filter (\<lambda>d. map_of d ''source'' = Some ''harbor'' \<and> map_of d ''repository'' = None)
                      (errors (fst (aggregate env settings w)))
                    = [[(''source'', ''harbor''), (''error'', str e)]]"
        by (rule listing_failure_result [OF complete])
    }
    {
      assume "harbor_projects env (projects_call (harbor_config settings)) w = (Inr (ps1 @ p # ps2), w1)
              \<and> project_loop env (harbor_config settings) ps1 [] ?errs w1 = (Inr images1, errs1, w2)
              \<and> harbor_repositories env (repositories_call (harbor_config settings) (p_name p)) w2
                 = (Inl e, w3)"
      then have "harbor_try env (harbor_config settings) ?errs w = (Inl e, errs1, w3)"
        using harbor_try_repositories_fail [of env "harbor_config settings" w ps1 p ps2 w1 ?errs images1 errs1 w2 e w3]
        by blast
      then show "snd (aggregate env settings w) = w3
                \<and> harbor_images (fst (aggregate env settings w)) = []
                \<and> errors (fst (aggregate env settings w))
                    = errs1 @ [[(''source'', ''harbor''), (''error'', str e)]]
                \<and> filter (\<lambda>d. map_of d ''source'' = Some ''harbor'' \<and> map_of d ''repository'' = None)
                      (errors (fst (aggregate env settings w)))
                    = [[(''source'', ''harbor''), (''error'', str e)]]"
        by (rule listing_failure_result [OF complete])
    }
  qed
  have handler: ?handler by (rule get_all_images_eq)
  from conjunct1 [OF both] conjunct2 [OF both] handler show ?thesis by (intro conjI)
qed

theorem listing_failure_ends_harbor_branch_witness:
  "harbor_projects ((demo_env nvcr_listing_fails (\<lambda>c. Inr two_tags))\<lparr>harbor_projects := projects_unauthorized\<rparr>)
       (projects_call (harbor_config demo_settings)) 0
     = (Inl (Exception ''401 Unauthorized''), 1)
   \<and> snd (aggregate
        ((demo_env nvcr_listing_fails (\<lambda>c. Inr two_tags))\<lparr>harbor_projects := projects_unauthorized\<rparr>)
        demo_settings 0) = 1
   \<and> harbor_repositories (demo_env nvcr_listing_fails (\<lambda>c. Inr two_tags))
       (repositories_call (harbor_config demo_settings) (p_name \<lparr>p_name = ''nvcr.io''\<rparr>)) 3
     = (Inl (Exception ''503 Service Unavailable''), 4)
   \<and> snd (aggregate (demo_env nvcr_listing_fails (\<lambda>c. Inr two_tags)) demo_settings 0) = 4
   \<and> harbor_images (fst (aggregate (demo_env nvcr_listing_fails (\<lambda>c. Inr two_tags))
         demo_settings 0)) = []
   \<and> filter (\<lambda>d. map_of d ''source'' = Some ''harbor'' \<and> map_of d ''repository'' = None)
        (errors (fst (aggregate (demo_env nvcr_listing_fails (\<lambda>c. Inr two_tags))
           demo_settings 0)))
     = [[(''source'', ''harbor''), (''error'', ''503 Service Unavailable'')]]"
proof -
  let ?env = "demo_env nvcr_listing_fails (\<lambda>c. Inr two_tags)"
  let ?env' = "?env\<lparr>harbor_projects := projects_unauthorized\<rparr>"
  let ?cfg = "harbor_config demo_settings"
  let ?errs = "[[(''source'', ''containerd''),
                 (''error'', ''Failed to execute crictl command: permission denied'')]]"
  let ?images = "[[(''repository'', ''library/nginx''), (''tag'', ''1.0''), (''digest'', ''sha256:ab''),
             (''size'', ''over 1 MB''), (''project'', ''library'')],
            [(''repository'', ''library/nginx''), (''tag'', ''latest''), (''digest'', ''sha256:ab''),
             (''size'', ''over 1 MB''), (''project'', ''library'')]]"
  have c1: "url ?cfg \<noteq> []" by (simp add: demo_settings_def)
  have c2: "user ?cfg \<noteq> []" by (simp add: demo_settings_def)
  have c3: "password ?cfg \<noteq> []" by (simp add: demo_settings_def)
  have a: "harbor_projects ?env' (projects_call ?cfg) 0 = (Inl (Exception ''401 Unauthorized''), 1)"
    by (simp add: demo_env_def projects_unauthorized_def)
  have b1: "harbor_projects ?env (projects_call ?cfg) 0
      = (Inr ([\<lparr>p_name = ''library''\<rparr>] @ \<lparr>p_name = ''nvcr.io''\<rparr> # []), 1)"
    by (simp add: demo_env_def demo_projects_def)
  have errs: "errors (containerd_branch ?env demo_settings
        \<lparr>containerd_images = [], harbor_images = [], errors = []\<rparr>) = ?errs"
    by (simp add: demo_settings_def demo_projects_def demo_repos_of_def demo_env_def
        projects_call_def repositories_call_def artifacts_call_def encode_repository_name_def
        startswith_def rstrip_def strip_def isspace_def containerd_branch_def containerd_try_def)
  have b2: "project_loop ?env ?cfg [\<lparr>p_name = ''library''\<rparr>] []
        (errors (containerd_branch ?env demo_settings
           \<lparr>containerd_images = [], harbor_images = [], errors = []\<rparr>)) 1
      = (Inr ?images, ?errs, 3)"
    unfolding errs
    by (simp add: nvcr_listing_fails_def two_tags_def numeral_3_eq_3
        aggregate_eq harbor_branch_def harbor_try_def humanize_sizes_def Let_def
        demo_settings_def demo_projects_def demo_repos_of_def demo_env_def
        projects_call_def repositories_call_def artifacts_call_def encode_repository_name_def
        startswith_def rstrip_def strip_def isspace_def containerd_branch_def containerd_try_def)
  have b3: "harbor_repositories ?env (repositories_call ?cfg (p_name \<lparr>p_name = ''nvcr.io''\<rparr>)) 3
      = (Inl (Exception ''503 Service Unavailable''), 4)"
    by (simp add: nvcr_listing_fails_def two_tags_def
        aggregate_eq harbor_branch_def harbor_try_def humanize_sizes_def Let_def
        demo_settings_def demo_projects_def demo_repos_of_def demo_env_def
        projects_call_def repositories_call_def artifacts_call_def encode_repository_name_def
        startswith_def rstrip_def strip_def isspace_def containerd_branch_def containerd_try_def)
  show ?thesis
    using listing_failure_ends_harbor_branch [OF c1 c2 c3,
        where env = ?env' and w = 0 and e = "Exception ''401 Unauthorized''" and ?w1.0 = 1]
      listing_failure_ends_harbor_branch [OF c1 c2 c3,
        where env = ?env and w = 0 and ?ps1.0 = "[\<lparr>p_name = ''library''\<rparr>]"
          and p = "\<lparr>p_name = ''nvcr.io''\<rparr>" and ?ps2.0 = "[]" and ?w1.0 = 1
          and ?images1.0 = ?images and ?errs1.0 = ?errs and ?w2.0 = 3
          and e = "Exception ''503 Service Unavailable''" and ?w3.0 = 4]
      a b1 b2 b3
    by simp
qed

text \<open>
  C2 as the specification states it fails. In the example registry the walk of
  \<open>library\<close> collects two image records, then the listing of the repositories of
  \<open>nvcr.io\<close> raises: the result has no harbor image at all.
\<close>

theorem listing_failure_loses_collected_images:
  "fst (project_loop (demo_env nvcr_listing_fails (\<lambda>c. Inr two_tags))
          (harbor_config demo_settings) [\<lparr>p_name = ''library''\<rparr>] [] [] 1)
     = Inr [[(''repository'', ''library/nginx''), (''tag'', ''1.0''), (''digest'', ''sha256:ab''),
             (''size'', ''over 1 MB''), (''project'', ''library'')],
            [(''repository'', ''library/nginx''), (''tag'', ''latest''), (''digest'', ''sha256:ab''),
             (''size'', ''over 1 MB''), (''project'', ''library'')]]
   \<and> fst (harbor_repositories (demo_env nvcr_listing_fails (\<lambda>c. Inr two_tags))
            (repositories_call (harbor_config demo_settings) ''nvcr.io'') 3)
     = Inl (Exception ''503 Service Unavailable'')
   \<and> harbor_images (fst (aggregate (demo_env nvcr_listing_fails (\<lambda>c. Inr two_tags))
         demo_settings 0)) = []
   \<and> errors (fst (aggregate (demo_env nvcr_listing_fails (\<lambda>c. Inr two_tags))
         demo_settings 0))
     = [[(''source'', ''containerd''),
         (''error'', ''Failed to execute crictl command: permission denied'')],
        [(''source'', ''harbor''), (''error'', ''503 Service Unavailable'')]]"
  by (simp add: nvcr_listing_fails_def two_tags_def
        aggregate_eq harbor_branch_def harbor_try_def humanize_sizes_def Let_def
        demo_settings_def demo_projects_def demo_repos_of_def demo_env_def
        projects_call_def repositories_call_def artifacts_call_def encode_repository_name_def
        startswith_def rstrip_def strip_def isspace_def containerd_branch_def containerd_try_def)

text \<open>
  C3. When the configuration is complete and the listings succeed, \<open>errors\<close> is what
  the containerd branch left there followed by one entry
  \<open>{source: harbor, repository: full name, error: ...}\<close> for each repository whose
  artifact fetch raises, in the order of the walk, and \<open>harbor_images\<close> holds the records
  of every repository whose artifact fetch succeeds, in the order of the walk; here the
  outcomes of the calls are any functions of the call, \<open>repos_of\<close> and \<open>arts_of\<close>.
  For a registry whose answers may depend on its state as well: when the loop over the
  repositories of a project reaches a repository whose artifact fetch raises, it appends
  the entry of that repository, keeps the images collected so far and goes on with the
  next repository, and the images collected so far are a prefix of what the loop
  returns.
\<close>

theorem artifact_failure_is_per_repository:
  "(url (harbor_config settings) \<noteq> [] \<and> user (harbor_config settings) \<noteq> []
      \<and> password (harbor_config settings) \<noteq> []
      \<and> fst (harbor_projects env (projects_call (harbor_config settings)) w) = Inr projects
      \<and> (\<forall>c w'. fst (harbor_repositories env c w') = Inr (repos_of c))
      \<and> (\<forall>c w'. fst (harbor_artifacts env c w') = arts_of c)
    \<longrightarrow> errors (fst (aggregate env settings w))
           = errors (containerd_branch env settings
                       \<lparr>containerd_images = [], harbor_images = [], errors = []\<rparr>)
             @ concat (map (\<lambda>p. concat (map (\<lambda>r.
                  case arts_of (artifacts_call (harbor_config settings) (p_name p) (r_name r)) of
                    Inl e \<Rightarrow> [[(''source'', ''harbor''), (''repository'', r_name r),
                                (''error'', ''Failed to fetch artifacts: '' @ str e)]]
                  | Inr as \<Rightarrow> [])
                (repos_of (repositories_call (harbor_config settings) (p_name p))))) projects)
        \<and> harbor_images (fst (aggregate env settings w))
           = concat (map (\<lambda>p. concat (map (\<lambda>r.
                  case arts_of (artifacts_call (harbor_config settings) (p_name p) (r_name r)) of
                    Inl e \<Rightarrow> []
                  | Inr as \<Rightarrow> repo_records (naturalsize env) (r_name r) (p_name p) as)
                (repos_of (repositories_call (harbor_config settings) (p_name p))))) projects))
   \<and> (repo_loop env cfg pname rs1 images errs w0 = (images1, errs1, w1)
        \<and> harbor_artifacts env (artifacts_call cfg pname (r_name r)) w1 = (Inl e, w2)
      \<longrightarrow> repo_loop env cfg pname (rs1 @ r # rs2) images errs w0
            = repo_loop env cfg pname rs2 images1
                (errs1 @ [[(''source'', ''harbor''), (''repository'', r_name r),
                           (''error'', ''Failed to fetch artifacts: '' @ str e)]]) w2
          \<and> (\<exists>more. fst (repo_loop env cfg pname (rs1 @ r # rs2) images errs w0)
                        = images1 @ more))
   \<and> get_all_images env settings w
         = (jsonify env (fst (aggregate env settings w)), snd (aggregate env settings w))"
  (is "(?static \<longrightarrow> ?result) \<and> (?reached \<longrightarrow> ?step \<and> ?kept) \<and> ?handler")
proof -
  have both: "(?static \<longrightarrow> ?result) \<and> (?reached \<longrightarrow> ?step \<and> ?kept)"
  proof (rule conjI; rule impI)
    assume h: ?static
    then have c1: "url (harbor_config settings) \<noteq> []" and c2: "user (harbor_config settings) \<noteq> []"
      and c3: "password (harbor_config settings) \<noteq> []"
      and p: "fst (harbor_projects env (projects_call (harbor_config settings)) w) = Inr projects"
      by simp_all
    have r: "\<And>c w'. fst (harbor_repositories env c w') = Inr (repos_of c)" using h by simp
    have a: "\<And>c w'. fst (harbor_artifacts env c w') = arts_of c" using h by simp
    show ?result by (rule errors_and_images_static [OF c1 c2 c3 p r a])
  next
    assume h: ?reached
    then have step: ?step
      using repo_loop_failure_step [of env cfg pname rs1 images errs w0] by blast
    then have ?kept using repo_loop_keeps_images [of env cfg pname rs2 images1] by simp
    with step show "?step \<and> ?kept" ..
  qed
  have handler: ?handler by (rule get_all_images_eq)
  from conjunct1 [OF both] conjunct2 [OF both] handler show ?thesis by (intro conjI)
qed

theorem artifact_failure_is_per_repository_witness:
  "errors (fst (aggregate (demo_env (\<lambda>c. Inr (demo_repos_of c)) cuda_fails) demo_settings 0))
     = [[(''source'', ''containerd''),
         (''error'', ''Failed to execute crictl command: permission denied'')],
        [(''source'', ''harbor''), (''repository'', ''nvcr.io/nvidia/cuda''),
         (''error'', ''Failed to fetch artifacts: 500 Server Error'')]]
   \<and> harbor_images (fst (aggregate (demo_env (\<lambda>c. Inr (demo_repos_of c)) cuda_fails) demo_settings 0))
     = [[(''repository'', ''nvcr.io/nvidia/pytorch''), (''tag'', ''1.0''), (''digest'', ''sha256:ab''),
         (''size'', ''over 1 MB''), (''project'', ''nvcr.io'')],
        [(''repository'', ''nvcr.io/nvidia/pytorch''), (''tag'', ''latest''), (''digest'', ''sha256:ab''),
         (''size'', ''over 1 MB''), (''project'', ''nvcr.io'')]]
   \<and> harbor_artifacts (demo_env (\<lambda>c. Inr (demo_repos_of c)) cuda_fails)
        (artifacts_call (harbor_config demo_settings) ''nvcr.io''
           (r_name \<lparr>r_name = ''nvcr.io/nvidia/cuda''\<rparr>)) 1
     = (Inl (Exception ''500 Server Error''), 2)
   \<and> repo_loop (demo_env (\<lambda>c. Inr (demo_repos_of c)) cuda_fails) (harbor_config demo_settings)
        ''nvcr.io'' ([\<lparr>r_name = ''nvcr.io/nvidia/pytorch''\<rparr>] @ \<lparr>r_name = ''nvcr.io/nvidia/cuda''\<rparr> # [])
        [] [] 0
     = ([[(''repository'', ''nvcr.io/nvidia/pytorch''), (''tag'', ''1.0''), (''digest'', ''sha256:ab''),
          (''size'', ''over 1 MB''), (''project'', ''nvcr.io'')],
         [(''repository'', ''nvcr.io/nvidia/pytorch''), (''tag'', ''latest''), (''digest'', ''sha256:ab''),
          (''size'', ''over 1 MB''), (''project'', ''nvcr.io'')]],
        [[(''source'', ''harbor''), (''repository'', ''nvcr.io/nvidia/cuda''),
          (''error'', ''Failed to fetch artifacts: 500 Server Error'')]],
        2)"
proof -
  let ?env = "demo_env (\<lambda>c. Inr (demo_repos_of c)) cuda_fails"
  let ?cfg = "harbor_config demo_settings"
  let ?images = "[[(''repository'', ''nvcr.io/nvidia/pytorch''), (''tag'', ''1.0''), (''digest'', ''sha256:ab''),
          (''size'', ''over 1 MB''), (''project'', ''nvcr.io'')],
         [(''repository'', ''nvcr.io/nvidia/pytorch''), (''tag'', ''latest''), (''digest'', ''sha256:ab''),
          (''size'', ''over 1 MB''), (''project'', ''nvcr.io'')]]"
  have static: "url ?cfg \<noteq> [] \<and> user ?cfg \<noteq> [] \<and> password ?cfg \<noteq> []
      \<and> fst (harbor_projects ?env (projects_call ?cfg) 0) = Inr demo_projects
      \<and> (\<forall>c w'. fst (harbor_repositories ?env c w') = Inr (demo_repos_of c))
      \<and> (\<forall>c w'. fst (harbor_artifacts ?env c w') = cuda_fails c)"
    by (simp add: demo_settings_def demo_env_def)
  have before: "repo_loop ?env ?cfg ''nvcr.io'' [\<lparr>r_name = ''nvcr.io/nvidia/pytorch''\<rparr>] [] [] 0
      = (?images, [], 1)"
    by (simp add: cuda_fails_def two_tags_def humanize_sizes_def Let_def
        demo_settings_def demo_projects_def demo_repos_of_def demo_env_def
        projects_call_def repositories_call_def artifacts_call_def encode_repository_name_def
        startswith_def rstrip_def strip_def isspace_def containerd_branch_def containerd_try_def)
  have fails: "harbor_artifacts ?env
        (artifacts_call ?cfg ''nvcr.io'' (r_name \<lparr>r_name = ''nvcr.io/nvidia/cuda''\<rparr>)) 1
      = (Inl (Exception ''500 Server Error''), 2)"
    by (simp add: cuda_fails_def
        demo_settings_def demo_projects_def demo_repos_of_def demo_env_def
        projects_call_def repositories_call_def artifacts_call_def encode_repository_name_def
        startswith_def rstrip_def strip_def isspace_def containerd_branch_def containerd_try_def)
  have statement: "(errors (fst (aggregate ?env demo_settings 0))
           = errors (containerd_branch ?env demo_settings
                       \<lparr>containerd_images = [], harbor_images = [], errors = []\<rparr>)
             @ concat (map (\<lambda>p. concat (map (\<lambda>r.
                  case cuda_fails (artifacts_call ?cfg (p_name p) (r_name r)) of
                    Inl e \<Rightarrow> [[(''source'', ''harbor''), (''repository'', r_name r),
                                (''error'', ''Failed to fetch artifacts: '' @ str e)]]
                  | Inr as \<Rightarrow> [])
                (demo_repos_of (repositories_call ?cfg (p_name p))))) demo_projects)
        \<and> harbor_images (fst (aggregate ?env demo_settings 0))
           = concat (map (\<lambda>p. concat (map (\<lambda>r.
                  case cuda_fails (artifacts_call ?cfg (p_name p) (r_name r)) of
                    Inl e \<Rightarrow> []
                  | Inr as \<Rightarrow> repo_records (naturalsize ?env) (r_name r) (p_name p) as)
                (demo_repos_of (repositories_call ?cfg (p_name p))))) demo_projects))
      \<and> repo_loop ?env ?cfg ''nvcr.io''
            ([\<lparr>r_name = ''nvcr.io/nvidia/pytorch''\<rparr>] @ \<lparr>r_name = ''nvcr.io/nvidia/cuda''\<rparr> # []) [] [] 0
          = repo_loop ?env ?cfg ''nvcr.io'' [] ?images
              ([] @ [[(''source'', ''harbor''),
                      (''repository'', r_name \<lparr>r_name = ''nvcr.io/nvidia/cuda''\<rparr>),
                      (''error'', ''Failed to fetch artifacts: '' @ str (Exception ''500 Server Error''))]]) 2"
    using artifact_failure_is_per_repository [where settings = demo_settings and env = ?env
        and w = 0 and projects = demo_projects and repos_of = demo_repos_of
        and arts_of = cuda_fails and cfg = ?cfg and pname = "''nvcr.io''"
        and ?rs1.0 = "[\<lparr>r_name = ''nvcr.io/nvidia/pytorch''\<rparr>]" and images = "[]" and errs = "[]"
        and ?w0.0 = 0 and ?images1.0 = ?images and ?errs1.0 = "[]" and ?w1.0 = 1
        and r = "\<lparr>r_name = ''nvcr.io/nvidia/cuda''\<rparr>" and e = "Exception ''500 Server Error''"
        and ?w2.0 = 2 and ?rs2.0 = "[]"]
      static before fails
    by blast
  have containerd: "errors (containerd_branch ?env demo_settings
        \<lparr>containerd_images = [], harbor_images = [], errors = []\<rparr>)
      = [[(''source'', ''containerd''),
          (''error'', ''Failed to execute crictl command: permission denied'')]]"
    by (simp add: demo_settings_def demo_projects_def demo_repos_of_def demo_env_def
        projects_call_def repositories_call_def artifacts_call_def encode_repository_name_def
        startswith_def rstrip_def strip_def isspace_def containerd_branch_def containerd_try_def)
  have size_text: "naturalsize ?env = (\<lambda>n. if n < 1000000 then ''under 1 MB'' else ''over 1 MB'')"
    by (simp add: demo_env_def)
  have scoped_entries: "concat (map (\<lambda>p. concat (map (\<lambda>r.
                  case cuda_fails (artifacts_call ?cfg (p_name p) (r_name r)) of
                    Inl e \<Rightarrow> [[(''source'', ''harbor''), (''repository'', r_name r),
                                (''error'', ''Failed to fetch artifacts: '' @ str e)]]
                  | Inr as \<Rightarrow> [])
                (demo_repos_of (repositories_call ?cfg (p_name p))))) demo_projects)
      = [[(''source'', ''harbor''), (''repository'', ''nvcr.io/nvidia/cuda''),
          (''error'', ''Failed to fetch artifacts: 500 Server Error'')]]"
    by (simp add: cuda_fails_def demo_settings_def demo_projects_def demo_repos_of_def
        repositories_call_def artifacts_call_def encode_repository_name_def startswith_def
        rstrip_def)
  have records: "concat (map (\<lambda>p. concat (map (\<lambda>r.
                  case cuda_fails (artifacts_call ?cfg (p_name p) (r_name r)) of
                    Inl e \<Rightarrow> []
                  | Inr as \<Rightarrow> repo_records (naturalsize ?env) (r_name r) (p_name p) as)
                (demo_repos_of (repositories_call ?cfg (p_name p))))) demo_projects)
      = ?images"
    unfolding size_text
    by (simp add: cuda_fails_def two_tags_def repo_records_def tags_of_def demo_settings_def
        demo_projects_def demo_repos_of_def repositories_call_def artifacts_call_def
        encode_repository_name_def startswith_def rstrip_def)
  have e: "errors (fst (aggregate ?env demo_settings 0))
      = [[(''source'', ''containerd''),
          (''error'', ''Failed to execute crictl command: permission denied'')],
         [(''source'', ''harbor''), (''repository'', ''nvcr.io/nvidia/cuda''),
          (''error'', ''Failed to fetch artifacts: 500 Server Error'')]]"
    using conjunct1 [OF conjunct1 [OF statement]] unfolding containerd scoped_entries by simp
  have i: "harbor_images (fst (aggregate ?env demo_settings 0)) = ?images"
    using conjunct2 [OF conjunct1 [OF statement]] unfolding records .
  have l: "repo_loop ?env ?cfg ''nvcr.io''
            ([\<lparr>r_name = ''nvcr.io/nvidia/pytorch''\<rparr>] @ \<lparr>r_name = ''nvcr.io/nvidia/cuda''\<rparr> # []) [] [] 0
      = (?images,
         [[(''source'', ''harbor''), (''repository'', ''nvcr.io/nvidia/cuda''),
           (''error'', ''Failed to fetch artifacts: 500 Server Error'')]], 2)"
    using conjunct2 [OF statement] by simp
  show ?thesis
    using e i fails l by (intro conjI)
qed

text \<open>
  C4. When \<open>url\<close>, \<open>user\<close> or \<open>password\<close> is empty, the harbor entries of
  \<open>errors\<close> are the one entry with the text \<open>Harbor configuration incomplete\<close>,
  \<open>harbor_images\<close> is empty, and the registry is in the state it was in: the handler has
  called none of the three fetch functions, whatever they are.
\<close>

theorem incomplete_configuration_skips_harbor:
  assumes "url (harbor_config settings) = [] \<or> user (harbor_config settings) = []
           \<or> password (harbor_config settings) = []"
  shows "filter (\<lambda>d. map_of d ''source'' = Some ''harbor'')
           (errors (fst (aggregate env settings w)))
           = [[(''source'', ''harbor''), (''error'', ''Harbor configuration incomplete'')]]
         \<and> harbor_images (fst (aggregate env settings w)) = []
         \<and> snd (aggregate env settings w) = w
         \<and> get_all_images env settings w = (jsonify env (fst (aggregate env settings w)), w)"
proof -
  let ?c = "containerd_branch env settings
              \<lparr>containerd_images = [], harbor_images = [], errors = []\<rparr>"
  have hb: "harbor_branch env settings ?c w
      = (?c\<lparr>errors := errors ?c @
           [[(''source'', ''harbor''), (''error'', ''Harbor configuration incomplete'')]]\<rparr>, w)"
    using assms by (auto simp: harbor_branch_def Let_def)
  obtain es where es: "errors ?c = es" "list_all from_containerd es"
    using containerd_branch_errors [of env settings "\<lparr>containerd_images = [], harbor_images = [], errors = []\<rparr>"]
    by auto
  have "harbor_images ?c = []" by (simp add: containerd_branch_harbor_images)
  then show ?thesis
    using hb es by (simp add: get_all_images_eq aggregate_eq filter_harbor_containerd)
qed

theorem incomplete_configuration_skips_harbor_witness:
  "user (harbor_config (demo_settings\<lparr>harbor_config := (harbor_config demo_settings)\<lparr>user := []\<rparr>\<rparr>)) = []
   \<and> errors (fst (aggregate (demo_env (\<lambda>c. Inr (demo_repos_of c)) (\<lambda>c. Inr []))
         (demo_settings\<lparr>harbor_config := (harbor_config demo_settings)\<lparr>user := []\<rparr>\<rparr>) 0))
       = [[(''source'', ''containerd''),
           (''error'', ''Failed to execute crictl command: permission denied'')],
          [(''source'', ''harbor''), (''error'', ''Harbor configuration incomplete'')]]
   \<and> snd (aggregate (demo_env (\<lambda>c. Inr (demo_repos_of c)) (\<lambda>c. Inr []))
         (demo_settings\<lparr>harbor_config := (harbor_config demo_settings)\<lparr>user := []\<rparr>\<rparr>) 0) = 0"
proof -
  let ?s = "demo_settings\<lparr>harbor_config := (harbor_config demo_settings)\<lparr>user := []\<rparr>\<rparr>"
  let ?env = "demo_env (\<lambda>c. Inr (demo_repos_of c)) (\<lambda>c. Inr [])"
  have h: "url (harbor_config ?s) = [] \<or> user (harbor_config ?s) = [] \<or> password (harbor_config ?s) = []"
    by simp
  have e: "errors (fst (aggregate ?env ?s 0))
       = [[(''source'', ''containerd''),
           (''error'', ''Failed to execute crictl command: permission denied'')],
          [(''source'', ''harbor''), (''error'', ''Harbor configuration incomplete'')]]"
    by (simp add: aggregate_eq harbor_branch_def
        demo_settings_def demo_projects_def demo_repos_of_def demo_env_def
        projects_call_def repositories_call_def artifacts_call_def encode_repository_name_def
        startswith_def rstrip_def strip_def isspace_def containerd_branch_def containerd_try_def)
  show ?thesis
    using incomplete_configuration_skips_harbor [OF h, of ?env 0] e by simp
qed

text \<open>
  C5. The harbor images of the result are those of the harbor branch run on the empty
  result, and do not change when the outcome of \<open>crictl\<close>, the decoder, the ignore list,
  the parser and the crictl configuration are replaced by any others. The containerd images
  of the result are those of the containerd branch, and do not change when the three
  fetch functions, the harbor configuration and the state of the registry are replaced by
  any others.
\<close>

theorem sources_are_isolated:
  "harbor_images (fst (aggregate
       (env\<lparr>crictl_images := c, decode := d, load_ignored_image_ids := l,
            parse_crictl_images_output := p\<rparr>)
       (settings\<lparr>crictl_config := cc\<rparr>) w))
     = harbor_images (fst (aggregate env settings w))
   \<and> harbor_images (fst (aggregate env settings w))
     = harbor_images (fst (harbor_branch env settings
         \<lparr>containerd_images = [], harbor_images = [], errors = []\<rparr> w))
   \<and> containerd_images (fst (aggregate
       (env\<lparr>harbor_projects := hp, harbor_repositories := hr, harbor_artifacts := ha\<rparr>)
       (settings\<lparr>harbor_config := hc\<rparr>) w2))
     = containerd_images (fst (aggregate env settings w))
   \<and> containerd_images (fst (aggregate env settings w))
     = containerd_images (containerd_branch env settings
         \<lparr>containerd_images = [], harbor_images = [], errors = []\<rparr>)
   \<and> get_all_images env settings w
     = (jsonify env (fst (aggregate env settings w)), snd (aggregate env settings w))"
proof (intro conjI)
  show "harbor_images (fst (aggregate
       (env\<lparr>crictl_images := c, decode := d, load_ignored_image_ids := l,
            parse_crictl_images_output := p\<rparr>)
       (settings\<lparr>crictl_config := cc\<rparr>) w))
     = harbor_images (fst (aggregate env settings w))"
    by (simp add: aggregate_eq harbor_branch_harbor_images
        containerd_branch_harbor_images harbor_try_frame split: sum.split)
  show "harbor_images (fst (aggregate env settings w))
     = harbor_images (fst (harbor_branch env settings
         \<lparr>containerd_images = [], harbor_images = [], errors = []\<rparr> w))"
    by (simp add: aggregate_eq harbor_branch_harbor_images
        containerd_branch_harbor_images split: sum.split)
  show "containerd_images (fst (aggregate
       (env\<lparr>harbor_projects := hp, harbor_repositories := hr, harbor_artifacts := ha\<rparr>)
       (settings\<lparr>harbor_config := hc\<rparr>) w2))
     = containerd_images (fst (aggregate env settings w))"
    by (simp add: aggregate_eq harbor_branch_containerd_images
        containerd_branch_frame)
  show "containerd_images (fst (aggregate env settings w))
     = containerd_images (containerd_branch env settings
         \<lparr>containerd_images = [], harbor_images = [], errors = []\<rparr>)"
    by (simp add: aggregate_eq harbor_branch_containerd_images)
  show "get_all_images env settings w
     = (jsonify env (fst (aggregate env settings w)), snd (aggregate env settings w))"
    by (rule get_all_images_eq)
qed

text \<open>
  C6, as the code has it. When the configuration is complete and the listing of the
  projects and every listing of repositories succeed, \<open>harbor_images\<close> has, for every
  repository whose artifact fetch succeeds, one record for each pair of an artifact and
  one of its tags, in order: the full repository name, the tag's name, the artifact's
  digest, the text of the artifact's size (the same for all tags of the artifact) and the
  project name. With two projects, three repositories in all and five artifacts of one tag
  each in every repository, there are 15 records. For a registry whose answers may depend
  on its state as well: when the loop over the repositories of a project reaches a
  repository whose artifact fetch succeeds, it appends exactly these records for the
  artifacts fetched to the local list and goes on with the next repository.
\<close>

theorem one_record_per_artifact_and_tag:
  "(url (harbor_config settings) \<noteq> [] \<and> user (harbor_config settings) \<noteq> []
      \<and> password (harbor_config settings) \<noteq> []
      \<and> fst (harbor_projects env (projects_call (harbor_config settings)) w) = Inr projects
      \<and> (\<forall>c w'. fst (harbor_repositories env c w') = Inr (repos_of c))
      \<and> (\<forall>c w'. fst (harbor_artifacts env c w') = arts_of c)
    \<longrightarrow> harbor_images (fst (aggregate env settings w))
           = concat (map (\<lambda>p. concat (map (\<lambda>r.
                  case arts_of (artifacts_call (harbor_config settings) (p_name p) (r_name r)) of
                    Inl e \<Rightarrow> []
                  | Inr as \<Rightarrow>
                      concat (map (\<lambda>a. map (\<lambda>t.
                          [(''repository'', r_name r), (''tag'', t_name t),
                           (''digest'', a_digest a), (''size'', naturalsize env (a_size a)),
                           (''project'', p_name p)])
                        (tags_of a)) as))
                (repos_of (repositories_call (harbor_config settings) (p_name p))))) projects)
         \<and> (length projects = 2
              \<and> length (concat (map (\<lambda>p. repos_of (repositories_call (harbor_config settings) (p_name p)))
                                   projects)) = 3
              \<and> (\<forall>p \<in> set projects.
                    \<forall>r \<in> set (repos_of (repositories_call (harbor_config settings) (p_name p))).
                      \<exists>as. arts_of (artifacts_call (harbor_config settings) (p_name p) (r_name r)) = Inr as
                            \<and> length as = 5 \<and> (\<forall>a \<in> set as. \<exists>t. a_tags a = Present [t]))
            \<longrightarrow> length (harbor_images (fst (aggregate env settings w))) = 15))
   \<and> (repo_loop env cfg pname rs1 images errs w0 = (images1, errs1, w1)
        \<and> harbor_artifacts env (artifacts_call cfg pname (r_name r)) w1 = (Inr artifacts, w2)
      \<longrightarrow> repo_loop env cfg pname (rs1 @ r # rs2) images errs w0
            = repo_loop env cfg pname rs2
                (images1 @ concat (map (\<lambda>a. map (\<lambda>t.
                    [(''repository'', r_name r), (''tag'', t_name t), (''digest'', a_digest a),
                     (''size'', naturalsize env (a_size a)), (''project'', pname)])
                  (tags_of a)) artifacts))
                errs1 w2)
   \<and> get_all_images env settings w
         = (jsonify env (fst (aggregate env settings w)), snd (aggregate env settings w))"
  (is "(?static \<longrightarrow> ?result) \<and> (?reached \<longrightarrow> ?step) \<and> ?handler")
proof -
  have both: "(?static \<longrightarrow> ?result) \<and> (?reached \<longrightarrow> ?step)"
  proof (rule conjI; rule impI)
    assume h: ?static
    then have c1: "url (harbor_config settings) \<noteq> []" and c2: "user (harbor_config settings) \<noteq> []"
      and c3: "password (harbor_config settings) \<noteq> []"
      and p: "fst (harbor_projects env (projects_call (harbor_config settings)) w) = Inr projects"
      by simp_all
    have r: "\<And>c w'. fst (harbor_repositories env c w') = Inr (repos_of c)" using h by simp
    have a: "\<And>c w'. fst (harbor_artifacts env c w') = arts_of c" using h by simp
    show ?result by (rule records_static [OF c1 c2 c3 p r a])
  next
    assume h: ?reached
    then show ?step
      using repo_loop_success_step [of env cfg pname rs1 images errs w0 images1 errs1 w1 r artifacts w2 rs2]
      by blast
  qed
  have handler: ?handler by (rule get_all_images_eq)
  from conjunct1 [OF both] conjunct2 [OF both] handler show ?thesis by (intro conjI)
qed

theorem one_record_per_artifact_and_tag_witness:
  "length demo_projects = 2
   \<and> length (concat (map (\<lambda>p. demo_repos_of (repositories_call (harbor_config demo_settings) (p_name p)))
                        demo_projects)) = 3
   \<and> length five_artifacts = 5
   \<and> length (harbor_images (fst (aggregate
         (demo_env (\<lambda>c. Inr (demo_repos_of c)) (\<lambda>c. Inr five_artifacts)) demo_settings 0))) = 15
   \<and> harbor_artifacts (demo_env (\<lambda>c. Inr (demo_repos_of c)) (\<lambda>c. Inr five_artifacts))
        (artifacts_call (harbor_config demo_settings) ''library''
           (r_name \<lparr>r_name = ''library/nginx''\<rparr>)) 7
       = (Inr five_artifacts, 8)
   \<and> length (fst (repo_loop (demo_env (\<lambda>c. Inr (demo_repos_of c)) (\<lambda>c. Inr five_artifacts))
        (harbor_config demo_settings) ''library'' ([] @ \<lparr>r_name = ''library/nginx''\<rparr> # []) [] [] 7)) = 5"
proof -
  let ?env = "demo_env (\<lambda>c. Inr (demo_repos_of c)) (\<lambda>c. Inr five_artifacts)"
  let ?cfg = "harbor_config demo_settings"
  have static: "url ?cfg \<noteq> [] \<and> user ?cfg \<noteq> [] \<and> password ?cfg \<noteq> []
      \<and> fst (harbor_projects ?env (projects_call ?cfg) 0) = Inr demo_projects
      \<and> (\<forall>c w'. fst (harbor_repositories ?env c w') = Inr (demo_repos_of c))
      \<and> (\<forall>c w'. fst (harbor_artifacts ?env c w') = Inr five_artifacts)"
    by (simp add: demo_settings_def demo_env_def)
  have two: "length demo_projects = 2" by (simp add: demo_projects_def)
  have three: "length (concat (map (\<lambda>p. demo_repos_of (repositories_call ?cfg (p_name p)))
                        demo_projects)) = 3"
    by (simp add: demo_projects_def demo_repos_of_def demo_settings_def repositories_call_def rstrip_def)
  have len: "length five_artifacts = 5" by (simp add: five_artifacts_def)
  have tagged: "\<forall>a \<in> set five_artifacts. \<exists>t. a_tags a = Present [t]"
    by (simp add: five_artifacts_def)
  have five: "\<forall>p \<in> set demo_projects.
      \<forall>r \<in> set (demo_repos_of (repositories_call ?cfg (p_name p))).
        \<exists>as. (Inr five_artifacts :: exn + int artifact list) = Inr as
              \<and> length as = 5 \<and> (\<forall>a \<in> set as. \<exists>t. a_tags a = Present [t])"
    using len tagged by blast
  have before: "repo_loop ?env ?cfg ''library'' [] [] [] 7 = ([], [], 7)" by simp
  have fetched: "harbor_artifacts ?env
        (artifacts_call ?cfg ''library'' (r_name \<lparr>r_name = ''library/nginx''\<rparr>)) 7
      = (Inr five_artifacts, 8)"
    by (simp add: demo_env_def)
  note claim = one_record_per_artifact_and_tag [where settings = demo_settings and env = ?env
        and w = 0 and projects = demo_projects and repos_of = demo_repos_of
        and arts_of = "\<lambda>c. Inr five_artifacts" and cfg = ?cfg and pname = "''library''"
        and ?rs1.0 = "[]" and images = "[]" and errs = "[]" and ?w0.0 = 7
        and ?images1.0 = "[]" and ?errs1.0 = "[]" and ?w1.0 = 7
        and r = "\<lparr>r_name = ''library/nginx''\<rparr>" and artifacts = five_artifacts
        and ?w2.0 = 8 and ?rs2.0 = "[]"]
  have fifteen: "length (harbor_images (fst (aggregate ?env demo_settings 0))) = 15"
    using conjunct1 [OF claim] static two three five by blast
  have "repo_loop ?env ?cfg ''library'' ([] @ \<lparr>r_name = ''library/nginx''\<rparr> # []) [] [] 7
      = repo_loop ?env ?cfg ''library'' []
          ([] @ concat (map (\<lambda>a. map (\<lambda>t.
              [(''repository'', r_name \<lparr>r_name = ''library/nginx''\<rparr>), (''tag'', t_name t),
               (''digest'', a_digest a), (''size'', naturalsize ?env (a_size a)),
               (''project'', ''library'')])
            (tags_of a)) five_artifacts)) [] 8"
    using conjunct2 [OF claim] before fetched by blast
  then have five_records: "length (fst (repo_loop ?env ?cfg ''library''
        ([] @ \<lparr>r_name = ''library/nginx''\<rparr> # []) [] [] 7)) = 5"
    by (simp add: five_artifacts_def tags_of_def)
  show ?thesis
    using two three len fifteen fetched five_records by (intro conjI)
qed

text \<open>
  C6 as the specification states it fails. In the example registry the artifact fetch
  of \<open>library/nginx\<close> succeeds with five artifacts of one tag each, then the listing of
  the repositories of \<open>nvcr.io\<close> raises: the records of \<open>library/nginx\<close> were in the
  local list only, and \<open>harbor_images\<close> of the result is empty.
\<close>

theorem fetched_records_are_dropped_by_a_later_listing_failure:
  "harbor_artifacts (demo_env nvcr_listing_fails (\<lambda>c. Inr five_artifacts))
       (artifacts_call (harbor_config demo_settings) ''library'' ''library/nginx'') 2
     = (Inr five_artifacts, 3)
   \<and> length (concat (map tags_of five_artifacts)) = 5
   \<and> harbor_repositories (demo_env nvcr_listing_fails (\<lambda>c. Inr five_artifacts))
       (repositories_call (harbor_config demo_settings) ''nvcr.io'') 3
     = (Inl (Exception ''503 Service Unavailable''), 4)
   \<and> harbor_images (fst (aggregate (demo_env nvcr_listing_fails (\<lambda>c. Inr five_artifacts))
         demo_settings 0)) = []"
  by (simp add: nvcr_listing_fails_def five_artifacts_def tags_of_def numeral_eq_Suc
        aggregate_eq harbor_branch_def harbor_try_def humanize_sizes_def Let_def
        demo_settings_def demo_projects_def demo_repos_of_def demo_env_def
        projects_call_def repositories_call_def artifacts_call_def encode_repository_name_def
        startswith_def rstrip_def strip_def isspace_def containerd_branch_def containerd_try_def)




text \<open>
  C10. An artifact whose \<open>tags\<close> key is absent, null or an empty list adds no record:
  alone it leaves the list of images as it is, among other artifacts the loop gives what it
  gives without it, and so does the pass of the repository loop over a repository that has
  it.
\<close>

theorem untagged_artifact_is_omitted:
  assumes "a_tags a = Absent \<or> a_tags a = Null \<or> a_tags a = Present []"
  shows "artifact_loop full_repo_name pname (humanize_sizes nsize [a]) images = images
         \<and> artifact_loop full_repo_name pname (humanize_sizes nsize (as1 @ a # as2)) images
             = artifact_loop full_repo_name pname (humanize_sizes nsize (as1 @ as2)) images
         \<and> (harbor_artifacts env (artifacts_call cfg pname (r_name repo)) w = (Inr (as1 @ a # as2), w')
              \<longrightarrow> repo_loop env cfg pname (repo # rest) images errs w
                    = repo_loop env cfg pname rest
                        (images @ repo_records (naturalsize env) (r_name repo) pname (as1 @ as2))
                        errs w')"
proof -
  have none: "repo_records n f p [a] = []" for n f p
    using assms by (rule repo_records_untagged)
  have drop: "repo_records n f p (as1 @ a # as2) = repo_records n f p (as1 @ as2)" for n f p
    using repo_records_append [of n f p as1 "[a] @ as2"] repo_records_append [of n f p "[a]" as2]
      none [of n f p]
    by (simp add: repo_records_append)
  show ?thesis
    by (simp add: artifact_loop_humanized none drop)
qed

theorem untagged_artifact_is_omitted_witness:
  "artifact_loop ''library/nginx'' ''library''
     (humanize_sizes (\<lambda>n. ''1 kB'')
        ([\<lparr>a_digest = ''sha256:01'', a_size = 1000, a_tags = Present [\<lparr>t_name = ''v1''\<rparr>]\<rparr>]
         @ \<lparr>a_digest = ''sha256:02'', a_size = 1000, a_tags = Null\<rparr> # [])) []
   = [[(''repository'', ''library/nginx''), (''tag'', ''v1''), (''digest'', ''sha256:01''),
       (''size'', ''1 kB''), (''project'', ''library'')]]
   \<and> artifact_loop ''library/nginx'' ''library''
     (humanize_sizes (\<lambda>n. ''1 kB'')
        [\<lparr>a_digest = ''sha256:03'', a_size = 1000, a_tags = Present []\<rparr>]) [] = []"
proof -
  have h1: "a_tags \<lparr>a_digest = ''sha256:02'', a_size = 1000 :: int, a_tags = Null\<rparr> = Absent
      \<or> a_tags \<lparr>a_digest = ''sha256:02'', a_size = 1000 :: int, a_tags = Null\<rparr> = Null
      \<or> a_tags \<lparr>a_digest = ''sha256:02'', a_size = 1000 :: int, a_tags = Null\<rparr> = Present []"
    by simp
  have h2: "a_tags \<lparr>a_digest = ''sha256:03'', a_size = 1000 :: int, a_tags = Present []\<rparr> = Absent
      \<or> a_tags \<lparr>a_digest = ''sha256:03'', a_size = 1000 :: int, a_tags = Present []\<rparr> = Null
      \<or> a_tags \<lparr>a_digest = ''sha256:03'', a_size = 1000 :: int, a_tags = Present []\<rparr> = Present []"
    by simp
  show ?thesis
    using untagged_artifact_is_omitted [OF h1, of "''library/nginx''" "''library''" "\<lambda>n. ''1 kB''" "[]"
        "[\<lparr>a_digest = ''sha256:01'', a_size = 1000, a_tags = Present [\<lparr>t_name = ''v1''\<rparr>]\<rparr>]" "[]"]
      untagged_artifact_is_omitted [OF h2, of "''library/nginx''" "''library''" "\<lambda>n. ''1 kB''" "[]"]
    by (simp add: humanize_sizes_def)
qed

section \<open>Properties of the paginated client\<close>

text \<open>
  C8, as the modelled client has it. For a page size above 0 and a collection of N items,
  the client requests the pages 1, 2, ... in order and returns the N items in their order.
  It makes \<open>max 1 \<lceil>N / page_size\<rceil>\<close> requests when the registry reports the total
  (that is \<open>\<lceil>N / page_size\<rceil>\<close> when N is above 0) and \<open>N div page_size + 1\<close>
  requests when it does not. When the request for a page \<open>k\<close> among these fails, the client
  returns the error alone, after the requests for the pages 1 to \<open>k\<close>.
\<close>

theorem paginated_fetch_follows_pages:
  assumes "0 < page_size"
  shows "get_harbor_paginated_results (paged_collection all_items with_total page_size) page_size []
           = Some (Inr all_items, [1 ..< Suc (pages_needed (length all_items) with_total page_size)])
       \<and> pages_needed (length all_items) True page_size
           = max 1 ((length all_items + page_size - 1) div page_size)
       \<and> pages_needed (length all_items) False page_size = length all_items div page_size + 1
       \<and> (0 < length all_items
            \<longrightarrow> pages_needed (length all_items) True page_size
                  = (length all_items + page_size - 1) div page_size)
       \<and> (1 \<le> k \<and> k \<le> pages_needed (length all_items) with_total page_size
            \<longrightarrow> get_harbor_paginated_results
                    (failing_at k e (paged_collection all_items with_total page_size)) page_size []
                  = Some (Inl e, [1 ..< Suc k]))"
proof -
  have pos: "0 < pages_needed (length all_items) with_total page_size"
    by (auto simp: pages_needed_def max_def)
  have run: "get_harbor_paginated_results (paged_collection all_items with_total page_size) page_size []
           = Some (Inr all_items, [1 ..< Suc (pages_needed (length all_items) with_total page_size)])"
    using page_loop_run [OF assms pos, of "[]"]
    by (simp add: get_harbor_paginated_results_def)
  have ceil: "pages_needed (length all_items) True page_size
                  = (length all_items + page_size - 1) div page_size"
    if "0 < length all_items"
  proof -
    have "page_size \<le> length all_items + page_size - 1" using that by linarith
    then have "1 \<le> (length all_items + page_size - 1) div page_size"
      using assms by (simp add: less_eq_div_iff_mult_less_eq)
    then show ?thesis by (simp add: pages_needed_def)
  qed
  have fail: "get_harbor_paginated_results
                    (failing_at k e (paged_collection all_items with_total page_size)) page_size []
                  = Some (Inl e, [1 ..< Suc k])"
    if "1 \<le> k" "k \<le> pages_needed (length all_items) with_total page_size"
    using page_loop_fail_run [OF assms _ that(2), of 0 e "[]"] that(1)
    by (simp add: get_harbor_paginated_results_def)
  show ?thesis
    using run ceil fail by (simp add: pages_needed_def)
qed

theorem paginated_fetch_follows_pages_witness:
  "(0::nat) < 2
   \<and> get_harbor_paginated_results (paged_collection ''abcde'' True 2) 2 []
       = Some (Inr ''abcde'', [1, 2, 3])
   \<and> (1::nat) \<le> 2 \<and> 2 \<le> pages_needed (length ''abcde'') True 2
   \<and> get_harbor_paginated_results
        (failing_at 2 (Exception ''timeout'') (paged_collection ''abcde'' True 2)) 2 []
       = Some (Inl (Exception ''timeout''), [1, 2])"
proof -
  have h: "(0::nat) < 2" by simp
  have n: "pages_needed (length ''abcde'') True 2 = 3" by (simp add: pages_needed_def)
  have u3: "[1 ..< Suc 3] = [1, 2, 3]" by (simp add: upt_conv_Cons)
  have u2: "[1 ..< Suc 2] = [1, 2]" by (simp add: upt_conv_Cons)
  show ?thesis
    using paginated_fetch_follows_pages [OF h, of "''abcde''" True 2 "Exception ''timeout''"] n u3 u2
    by simp
qed

text \<open>
  C8 as the specification states it fails: an empty collection costs one request, not
  \<open>\<lceil>0 / 10\<rceil> = 0\<close>, and a collection of two items served in pages of two by a registry
  that reports no total costs two requests, not \<open>\<lceil>2 / 2\<rceil> = 1\<close>.
\<close>

theorem paginated_fetch_request_count_differs:
  "get_harbor_paginated_results (paged_collection ([] :: string list) True 10) 10 [] = Some (Inr [], [1])
   \<and> (length ([] :: string list) + 10 - 1) div 10 = 0
   \<and> get_harbor_paginated_results (paged_collection [''a'', ''b''] False 2) 2 []
       = Some (Inr [''a'', ''b''], [1, 2])
   \<and> (length [''a'', ''b''] + 2 - 1) div 2 = 1"
  by (simp add: get_harbor_paginated_results_def page_loop.simps paged_collection_def)

end
